theory Spec2Isabelle
  imports Main "HOL-Library.Word" "HOL-Library.Char_ord" "HOL-Library.List_Lexorder"
    "HOL-Library.Multiset"
begin

section \<open>Bytes, streams and errors\<close>

text \<open>
  The codecs of \<^verbatim>\<open>anchorpy/borsh.py\<close> are objects of the \<^verbatim>\<open>construct\<close> library: each has
  a method \<^verbatim>\<open>_parse(stream, context, path)\<close> and a method \<^verbatim>\<open>_build(obj, stream, context, path)\<close>.
  A stream being parsed is modelled by the list of bytes not yet read; a parser returns the
  value and the rest of the stream. A builder returns the bytes it appends to its stream.
  Every exception is a value of \<open>error\<close>, named after the Python exception class.
\<close>

type_synonym byte = "8 word"

datatype error =
    StreamError | StringError | FormatFieldError | IntegerError | RangeError | SizeofError
  | ValueError | TypeError | KeyError | IndexError | AttributeError
  | UnicodeDecodeError | OverflowError | StopIteration

text \<open>\<^verbatim>\<open>construct.stream_read(stream, length, path)\<close>: exactly \<open>length\<close> bytes, or StreamError.\<close>

definition stream_read :: "byte list \<Rightarrow> nat \<Rightarrow> error + (byte list \<times> byte list)" where
  "stream_read stream n =
     (if length stream < n then Inl StreamError else Inr (take n stream, drop n stream))"

text \<open>Sequencing of fallible steps: the first exception aborts the call.\<close>

definition bind :: "error + 'a \<Rightarrow> ('a \<Rightarrow> error + 'b) \<Rightarrow> error + 'b" where
  "bind r f = (case r of Inl e \<Rightarrow> Inl e | Inr x \<Rightarrow> f x)"

lemma bind_Inl [simp]: "bind (Inl e) f = Inl e"
  by (simp add: bind_def)

lemma bind_Inr [simp]: "bind (Inr x) f = f x"
  by (simp add: bind_def)

lemma bind_cong [fundef_cong]:
  "r = r' \<Longrightarrow> (\<And>x. r' = Inr x \<Longrightarrow> f x = f' x) \<Longrightarrow> bind r f = bind r' f'"
  by (auto simp: bind_def split: sum.splits)

lemma bind_eq_Inr: "bind r f = Inr y \<longleftrightarrow> (\<exists>x. r = Inr x \<and> f x = Inr y)"
  by (cases r) auto

text \<open>Little-endian byte strings of a fixed width, and their value.\<close>

fun le_bytes :: "nat \<Rightarrow> int \<Rightarrow> byte list" where
  "le_bytes 0 x = []"
| "le_bytes (Suc n) x = of_int (x mod 256) # le_bytes n (x div 256)"

fun le_int :: "byte list \<Rightarrow> int" where
  "le_int [] = 0"
| "le_int (b # bs) = uint b + 256 * le_int bs"

section \<open>Python values\<close>

text \<open>
  The values the codecs build from and parse to. A \<^verbatim>\<open>str\<close> is represented by its UTF-8
  encoding (one \<open>char\<close> per byte), so that \<^verbatim>\<open>bytes(s, "utf8")\<close> is the identity on the
  representation and the order of \<^verbatim>\<open>str\<close> (by code point) is the lexicographic order of the
  representation. \<open>VList\<close> is a \<^verbatim>\<open>list\<close> (or construct's ListContainer), \<open>VDict\<close> a
  \<^verbatim>\<open>dict\<close> (or construct's Container) with its items in insertion order, \<open>VSet\<close> a set
  in its iteration order. \<open>VVariant index cname fields\<close> is an instance of the constructor
  \<open>cname\<close> of a \<^verbatim>\<open>rust_enum\<close> class: \<open>index\<close> is the class attribute set by
  \<^verbatim>\<open>rust_enum\<close>, \<open>fields\<close> the attrs fields with their values.
  Floats are modelled apart (section on FormatFieldNoNan); solana's PublicKey is not modelled.
\<close>

datatype val =
    VNone
  | VBool bool
  | VInt int
  | VBytes "byte list"
  | VStr string
  | VList "val list"
  | VTuple "val list"
  | VDict "(val \<times> val) list"
  | VSet "val list"
  | VVariant nat string "(string \<times> val) list"

text \<open>
  Python's \<^verbatim>\<open>==\<close> on these values: \<^verbatim>\<open>bool\<close> is a subclass of \<^verbatim>\<open>int\<close>
  (\<^verbatim>\<open>True == 1\<close>); lists and tuples compare element by element and never equal each other;
  dicts and sets compare without regard to order; two attrs instances are equal when they
  are of the same constructor and their fields are equal.
\<close>

definition as_int :: "val \<Rightarrow> int option" where
  "as_int v = (case v of VInt i \<Rightarrow> Some i | VBool b \<Rightarrow> Some (if b then 1 else 0) | _ \<Rightarrow> None)"

fun py_eq :: "val \<Rightarrow> val \<Rightarrow> bool" where
  "py_eq VNone b = (b = VNone)"
| "py_eq (VBool x) b = (as_int b = Some (if x then 1 else 0))"
| "py_eq (VInt i) b = (as_int b = Some i)"
| "py_eq (VBytes x) b = (b = VBytes x)"
| "py_eq (VStr x) b = (b = VStr x)"
| "py_eq (VList xs) b = (case b of VList ys \<Rightarrow> list_all2 py_eq xs ys | _ \<Rightarrow> False)"
| "py_eq (VTuple xs) b = (case b of VTuple ys \<Rightarrow> list_all2 py_eq xs ys | _ \<Rightarrow> False)"
| "py_eq (VDict xs) b =
     (case b of
        VDict ys \<Rightarrow>
          length xs = length ys \<and>
          list_all (\<lambda>kv. list_ex (\<lambda>kv'. py_eq (fst kv) (fst kv') \<and> py_eq (snd kv) (snd kv')) ys) xs
      | _ \<Rightarrow> False)"
| "py_eq (VSet xs) b =
     (case b of
        VSet ys \<Rightarrow> length xs = length ys \<and> list_all (\<lambda>x. list_ex (py_eq x) ys) xs
      | _ \<Rightarrow> False)"
| "py_eq (VVariant i n fs) b =
     (case b of
        VVariant j m gs \<Rightarrow> i = j \<and> n = m \<and> list_all2 (\<lambda>f g. py_eq (snd f) (snd g)) fs gs
      | _ \<Rightarrow> False)"

text \<open>
  Python's \<^verbatim>\<open><\<close>; \<open>None\<close> stands for the TypeError of two operands that are not
  ordered. Sequences are compared lexicographically: the first pair of elements that are
  not \<^verbatim>\<open>==\<close> decides. On two sets \<^verbatim>\<open><\<close> is the proper-subset test: the left set is
  the smaller one and each of its elements is in the right set. attrs instances of one
  constructor compare as the tuples of their fields.
\<close>

fun lex_lt :: "('a \<Rightarrow> 'a \<Rightarrow> bool) \<Rightarrow> ('a \<Rightarrow> 'a \<Rightarrow> bool option) \<Rightarrow> 'a list \<Rightarrow> 'a list \<Rightarrow> bool option" where
  "lex_lt eq lt [] [] = Some False"
| "lex_lt eq lt [] (y # ys) = Some True"
| "lex_lt eq lt (x # xs) [] = Some False"
| "lex_lt eq lt (x # xs) (y # ys) = (if eq x y then lex_lt eq lt xs ys else lt x y)"

lemma lex_lt_cong [fundef_cong]:
  "xs = xs' \<Longrightarrow> ys = ys' \<Longrightarrow> eq = eq' \<Longrightarrow> (\<And>x y. x \<in> set xs' \<Longrightarrow> y \<in> set ys' \<Longrightarrow> lt x y = lt' x y)
   \<Longrightarrow> lex_lt eq lt xs ys = lex_lt eq' lt' xs' ys'"
  by (induction eq lt xs ys arbitrary: xs' ys' rule: lex_lt.induct) auto

fun py_lt :: "val \<Rightarrow> val \<Rightarrow> bool option" where
  "py_lt VNone b = None"
| "py_lt (VBool x) b = map_option (\<lambda>j. (if x then 1 else 0) < j) (as_int b)"
| "py_lt (VInt i) b = map_option (\<lambda>j. i < j) (as_int b)"
| "py_lt (VBytes x) b = (case b of VBytes y \<Rightarrow> Some (x < y) | _ \<Rightarrow> None)"
| "py_lt (VStr x) b = (case b of VStr y \<Rightarrow> Some (x < y) | _ \<Rightarrow> None)"
| "py_lt (VList xs) b = (case b of VList ys \<Rightarrow> lex_lt py_eq py_lt xs ys | _ \<Rightarrow> None)"
| "py_lt (VTuple xs) b = (case b of VTuple ys \<Rightarrow> lex_lt py_eq py_lt xs ys | _ \<Rightarrow> None)"
| "py_lt (VDict xs) b = None"
| "py_lt (VSet xs) b =
     (case b of
        VSet ys \<Rightarrow> Some (length xs < length ys \<and> list_all (\<lambda>x. list_ex (py_eq x) ys) xs)
      | _ \<Rightarrow> None)"
| "py_lt (VVariant i n fs) b =
     (case b of
        VVariant j m gs \<Rightarrow>
          if i = j \<and> n = m then lex_lt py_eq py_lt (map snd fs) (map snd gs) else None
      | _ \<Rightarrow> None)"

text \<open>Truth value of an object (\<^verbatim>\<open>if obj\<close>), its length and its iteration.\<close>

fun truthy :: "val \<Rightarrow> bool" where
  "truthy VNone = False"
| "truthy (VBool b) = b"
| "truthy (VInt i) = (i \<noteq> 0)"
| "truthy (VBytes bs) = (bs \<noteq> [])"
| "truthy (VStr s) = (s \<noteq> [])"
| "truthy (VList xs) = (xs \<noteq> [])"
| "truthy (VTuple xs) = (xs \<noteq> [])"
| "truthy (VDict kvs) = (kvs \<noteq> [])"
| "truthy (VSet xs) = (xs \<noteq> [])"
| "truthy (VVariant i n fs) = True"

text \<open>The characters of a \<^verbatim>\<open>str\<close>: each lead byte with the continuation bytes after it.\<close>

definition is_continuation :: "char \<Rightarrow> bool" where
  "is_continuation c = (128 \<le> (of_char c :: nat) \<and> (of_char c :: nat) < 192)"

function utf8_chars :: "string \<Rightarrow> string list" where
  "utf8_chars [] = []"
| "utf8_chars (c # cs) = (c # takeWhile is_continuation cs) # utf8_chars (dropWhile is_continuation cs)"
  by pat_completeness auto
termination
  by (relation "measure length") (auto simp: length_dropWhile_le less_Suc_eq_le)

fun py_iter :: "val \<Rightarrow> val list option" where
  "py_iter (VList xs) = Some xs"
| "py_iter (VTuple xs) = Some xs"
| "py_iter (VSet xs) = Some xs"
| "py_iter (VDict kvs) = Some (map fst kvs)"
| "py_iter (VBytes bs) = Some (map (\<lambda>b. VInt (uint b)) bs)"
| "py_iter (VStr s) = Some (map VStr (utf8_chars s))"
| "py_iter v = None"

text \<open>
  Hashable objects (keys of a dict, elements of a set). An attrs class with the default
  \<^verbatim>\<open>eq=True, frozen=False\<close> is not hashable.
\<close>

fun hashable :: "val \<Rightarrow> bool" where
  "hashable (VList xs) = False"
| "hashable (VDict kvs) = False"
| "hashable (VSet xs) = False"
| "hashable (VVariant i n fs) = False"
| "hashable (VTuple xs) = list_all hashable xs"
| "hashable v = True"

text \<open>A dict: lookup, assignment \<^verbatim>\<open>d[k] = v\<close> (a key already present keeps its place).\<close>

fun dict_get :: "(val \<times> val) list \<Rightarrow> val \<Rightarrow> val option" where
  "dict_get [] k = None"
| "dict_get (kv # kvs) k = (if py_eq (fst kv) k then Some (snd kv) else dict_get kvs k)"

fun dict_set :: "(val \<times> val) list \<Rightarrow> val \<Rightarrow> val \<Rightarrow> (val \<times> val) list" where
  "dict_set [] k v = [(k, v)]"
| "dict_set (kv # kvs) k v =
     (if py_eq (fst kv) k then (fst kv, v) # kvs else kv # dict_set kvs k v)"

text \<open>
  \<^verbatim>\<open>dict(obj)\<close> for a list of pairs, as \<^verbatim>\<open>HashMap._decode\<close> calls it: every element is
  a sequence of length two, every key is hashable, and a later pair overrides an earlier
  one with an equal key.
\<close>

fun dict_of_pairs :: "(val \<times> val) list \<Rightarrow> val list \<Rightarrow> error + (val \<times> val) list" where
  "dict_of_pairs acc [] = Inr acc"
| "dict_of_pairs acc (p # ps) =
     (case py_iter p of
        None \<Rightarrow> Inl TypeError
      | Some [k, v] \<Rightarrow> if hashable k then dict_of_pairs (dict_set acc k v) ps else Inl TypeError
      | Some _ \<Rightarrow> Inl ValueError)"

definition py_dict :: "val \<Rightarrow> error + val" where
  "py_dict obj =
     (case obj of
        VDict kvs \<Rightarrow> Inr (VDict kvs)
      | _ \<Rightarrow> (case py_iter obj of
                None \<Rightarrow> Inl TypeError
              | Some ps \<Rightarrow> bind (dict_of_pairs [] ps) (\<lambda>kvs. Inr (VDict kvs))))"

text \<open>\<^verbatim>\<open>set(obj)\<close>, as \<^verbatim>\<open>HashSet._decode\<close> calls it.\<close>

fun set_of_list :: "val list \<Rightarrow> val list \<Rightarrow> error + val list" where
  "set_of_list acc [] = Inr acc"
| "set_of_list acc (x # xs) =
     (if \<not> hashable x then Inl TypeError
      else set_of_list (if list_ex (py_eq x) acc then acc else acc @ [x]) xs)"

definition py_set :: "val \<Rightarrow> error + val" where
  "py_set obj =
     (case py_iter obj of
        None \<Rightarrow> Inl TypeError
      | Some xs \<Rightarrow> bind (set_of_list [] xs) (\<lambda>ys. Inr (VSet ys)))"

text \<open>
  \<^verbatim>\<open>sorted(xs)\<close>: a stable sort that only asks \<^verbatim>\<open><\<close>, here by insertion; a comparison
  that raises aborts the sort. Python's own algorithm asks other comparisons than this
  one: the two agree where \<^verbatim>\<open><\<close> is a strict total order on the values sorted (\<open>py_total\<close>
  below), and the properties of sorted output are stated for such values.
\<close>

fun py_insort :: "val \<Rightarrow> val list \<Rightarrow> error + val list" where
  "py_insort x [] = Inr [x]"
| "py_insort x (y # ys) =
     (case py_lt y x of
        None \<Rightarrow> Inl TypeError
      | Some True \<Rightarrow> bind (py_insort x ys) (\<lambda>zs. Inr (y # zs))
      | Some False \<Rightarrow> Inr (x # y # ys))"

fun py_sorted :: "val list \<Rightarrow> error + val list" where
  "py_sorted [] = Inr []"
| "py_sorted (x # xs) = bind (py_sorted xs) (py_insort x)"


section \<open>Codecs of the construct library\<close>

text \<open>
  The schema tree. \<^verbatim>\<open>borsh.py\<close> builds its codecs from these classes of construct:
  \<^item> \<open>Flag\<close> (imported as \<^verbatim>\<open>Bool\<close>);
  \<^item> \<open>FormatField n signed\<close>: the little-endian integer formats \<^verbatim>\<open>Int8ul\<close> ... \<^verbatim>\<open>Int64sl\<close>;
  \<^item> \<open>BytesInteger n signed\<close> with \<^verbatim>\<open>swapped=True\<close> (\<^verbatim>\<open>U128\<close>, \<^verbatim>\<open>I128\<close>);
  \<^item> \<open>GreedyBytes\<close>, \<open>Prefixed\<close> and \<open>PrefixedArray\<close> (both with the length field \<^verbatim>\<open>U32\<close>),
    \<open>Array\<close>, \<open>Sequence\<close>, \<open>Struct\<close>, \<open>Renamed\<close> (\<^verbatim>\<open>"name" / subcon\<close>);
  and from its own classes \<open>StringAdapter\<close>, \<open>Option\<close>, \<open>Enum\<close>, and the adapters
  \<open>HashMap\<close> and \<open>HashSet\<close>. A variant of an \<open>Enum\<close> is a \<^verbatim>\<open>str\<close> (a unit variant) or
  a construct; the object keeps \<^verbatim>\<open>self.enum\<close> (the \<^verbatim>\<open>rust_enum\<close> class: its constructor
  names in order, each with its attrs fields) and \<^verbatim>\<open>self.variants\<close>.
\<close>

datatype 'c variant = VariantName string | VariantSubcon 'c

type_synonym rust_enum = "(string \<times> string list) list"

datatype construct =
    Flag
  | FormatField nat bool
  | BytesInteger nat bool
  | GreedyBytes
  | Prefixed construct
  | StringAdapter construct
  | PrefixedArray construct
  | Array nat construct
  | Sequence "construct list"
  | Struct "construct list"
  | Renamed string construct
  | Option construct
  | Enum rust_enum "construct variant list"
  | HashMapAdapter construct
  | HashSetAdapter construct

abbreviation "Bool \<equiv> Flag"
abbreviation "U8 \<equiv> FormatField 1 False"
abbreviation "I8 \<equiv> FormatField 1 True"
abbreviation "U16 \<equiv> FormatField 2 False"
abbreviation "I16 \<equiv> FormatField 2 True"
abbreviation "U32 \<equiv> FormatField 4 False"
abbreviation "I32 \<equiv> FormatField 4 True"
abbreviation "U64 \<equiv> FormatField 8 False"
abbreviation "I64 \<equiv> FormatField 8 True"
abbreviation "U128 \<equiv> BytesInteger 16 False"
abbreviation "I128 \<equiv> BytesInteger 16 True"
abbreviation "TupleStruct \<equiv> Sequence"
abbreviation "CStruct \<equiv> Struct"
abbreviation "Bytes \<equiv> Prefixed GreedyBytes"
abbreviation "String \<equiv> StringAdapter Bytes"

definition TUPLE_DATA :: string where
  "TUPLE_DATA = ''tuple_data''"

definition Vec :: "construct \<Rightarrow> construct" where
  "Vec subcon = PrefixedArray subcon"

definition HashMap :: "construct \<Rightarrow> construct \<Rightarrow> construct" where
  "HashMap key_subcon value_subcon =
     HashMapAdapter (PrefixedArray (TupleStruct [key_subcon, value_subcon]))"

definition HashSet :: "construct \<Rightarrow> construct" where
  "HashSet subcon = HashSetAdapter (PrefixedArray subcon)"

text \<open>
  The \<^verbatim>\<open>name\<close> attribute of a construct: \<^verbatim>\<open>None\<close>, unless \<open>Renamed\<close> sets it. \<open>Renamed\<close>
  keeps the name of its subcon when the new name is empty
  (\<^verbatim>\<open>self.name = newname if newname else subcon.name\<close>), so a name is never the empty string.
\<close>

fun name_of :: "construct \<Rightarrow> string option" where
  "name_of (Renamed n sc) = (if n = [] then name_of sc else Some n)"
| "name_of sc = None"

subsection \<open>Integers\<close>

definition int_in_range :: "nat \<Rightarrow> bool \<Rightarrow> int \<Rightarrow> bool" where
  "int_in_range n is_signed i =
     (if is_signed then - (2 ^ (8 * n - 1)) \<le> i \<and> i < 2 ^ (8 * n - 1) else 0 \<le> i \<and> i < 2 ^ (8 * n))"

definition int_to_le :: "nat \<Rightarrow> int \<Rightarrow> byte list" where
  "int_to_le n i = le_bytes n (i mod 2 ^ (8 * n))"

definition int_of_le :: "bool \<Rightarrow> byte list \<Rightarrow> int" where
  "int_of_le is_signed bs =
     (let u = le_int bs; n = length bs
      in if is_signed \<and> 2 ^ (8 * n - 1) \<le> u then u - 2 ^ (8 * n) else u)"

text \<open>
  \<^verbatim>\<open>FormatField._build\<close>: \<^verbatim>\<open>struct.pack\<close> takes an integer (or a bool) within the range of
  the format; every exception of \<^verbatim>\<open>struct\<close> becomes a FormatFieldError.
\<close>

definition FormatField_build :: "nat \<Rightarrow> bool \<Rightarrow> val \<Rightarrow> error + byte list" where
  "FormatField_build n is_signed obj =
     (case as_int obj of
        None \<Rightarrow> Inl FormatFieldError
      | Some i \<Rightarrow> if int_in_range n is_signed i then Inr (int_to_le n i) else Inl FormatFieldError)"

definition FormatField_parse :: "nat \<Rightarrow> bool \<Rightarrow> byte list \<Rightarrow> error + (val \<times> byte list)" where
  "FormatField_parse n is_signed stream =
     bind (stream_read stream n) (\<lambda>(data, rest). Inr (VInt (int_of_le is_signed data), rest))"

text \<open>
  \<^verbatim>\<open>BytesInteger(length, signed, swapped=True)\<close>: big-endian bytes, reversed. The object must
  be an integer that fits; the length must be positive.
\<close>

definition swapbytes :: "byte list \<Rightarrow> byte list" where
  "swapbytes data = rev data"

definition integer2bytes :: "nat \<Rightarrow> int \<Rightarrow> byte list" where
  "integer2bytes n i = rev (int_to_le n i)"

definition bytes2integer :: "bool \<Rightarrow> byte list \<Rightarrow> int" where
  "bytes2integer is_signed data = int_of_le is_signed (rev data)"

definition BytesInteger_build :: "nat \<Rightarrow> bool \<Rightarrow> val \<Rightarrow> error + byte list" where
  "BytesInteger_build n is_signed obj =
     (case as_int obj of
        None \<Rightarrow> Inl IntegerError
      | Some i \<Rightarrow>
          if n = 0 then Inl IntegerError
          else if int_in_range n is_signed i then Inr (swapbytes (integer2bytes n i))
          else Inl IntegerError)"

definition BytesInteger_parse :: "nat \<Rightarrow> bool \<Rightarrow> byte list \<Rightarrow> error + (val \<times> byte list)" where
  "BytesInteger_parse n is_signed stream =
     (if n = 0 then Inl IntegerError
      else bind (stream_read stream n)
             (\<lambda>(data, rest). Inr (VInt (bytes2integer is_signed (swapbytes data)), rest)))"

subsection \<open>UTF-8\<close>

definition byte_of_char :: "char \<Rightarrow> byte" where
  "byte_of_char c = of_nat (of_char c)"

definition char_of_byte :: "byte \<Rightarrow> char" where
  "char_of_byte b = char_of (unat b)"

text \<open>
  \<^verbatim>\<open>bytes.decode("utf8")\<close> accepts exactly the well-formed UTF-8 byte sequences: no
  overlong forms, no surrogates, nothing above U+10FFFF.
\<close>

definition cont :: "byte \<Rightarrow> bool" where
  "cont b = (0x80 \<le> b \<and> b \<le> 0xBF)"

fun utf8_valid :: "byte list \<Rightarrow> bool" where
  "utf8_valid [] = True"
| "utf8_valid (b0 # bs) =
     (if b0 < 0x80 then utf8_valid bs
      else if 0xC2 \<le> b0 \<and> b0 \<le> 0xDF then
        (case bs of b1 # r \<Rightarrow> cont b1 \<and> utf8_valid r | _ \<Rightarrow> False)
      else if 0xE0 \<le> b0 \<and> b0 \<le> 0xEF then
        (case bs of
           b1 # b2 # r \<Rightarrow>
             cont b1 \<and> cont b2 \<and> (b0 = 0xE0 \<longrightarrow> 0xA0 \<le> b1) \<and> (b0 = 0xED \<longrightarrow> b1 \<le> 0x9F) \<and>
             utf8_valid r
         | _ \<Rightarrow> False)
      else if 0xF0 \<le> b0 \<and> b0 \<le> 0xF4 then
        (case bs of
           b1 # b2 # b3 # r \<Rightarrow>
             cont b1 \<and> cont b2 \<and> cont b3 \<and> (b0 = 0xF0 \<longrightarrow> 0x90 \<le> b1) \<and>
             (b0 = 0xF4 \<longrightarrow> b1 \<le> 0x8F) \<and> utf8_valid r
         | _ \<Rightarrow> False)
      else False)"

text \<open>\<^verbatim>\<open>StringAdapter\<close>: \<^verbatim>\<open>_decode\<close> is \<^verbatim>\<open>obj.decode("utf8")\<close>, \<^verbatim>\<open>_encode\<close> is \<^verbatim>\<open>bytes(obj, "utf8")\<close>.\<close>

definition StringAdapter_decode :: "val \<Rightarrow> error + val" where
  "StringAdapter_decode obj =
     (case obj of
        VBytes bs \<Rightarrow> if utf8_valid bs then Inr (VStr (map char_of_byte bs)) else Inl UnicodeDecodeError
      | _ \<Rightarrow> Inl AttributeError)"

definition StringAdapter_encode :: "val \<Rightarrow> error + val" where
  "StringAdapter_encode obj =
     (case obj of VStr s \<Rightarrow> Inr (VBytes (map byte_of_char s)) | _ \<Rightarrow> Inl TypeError)"


section \<open>Construction of an Enum\<close>

text \<open>
  \<^verbatim>\<open>_make_enum\<close> sets one attribute per variant on a fresh class \<^verbatim>\<open>EnumDef\<close> and hands it to
  \<^verbatim>\<open>rust_enum\<close>. The class is modelled by its \<^verbatim>\<open>__dict__\<close>, in the order Python keeps it. An
  attribute is a constructor of sumtypes, modelled by its attrs fields (none for
  \<^verbatim>\<open>unit_struct()\<close>, the single field \<^verbatim>\<open>tuple_data\<close> for \<^verbatim>\<open>tuple_struct()\<close>, the given names
  for \<^verbatim>\<open>clike_struct\<close>), or something else. The class statement of \<^verbatim>\<open>_make_enum\<close> has a
  docstring and nothing more: it leaves \<^verbatim>\<open>__module__\<close> and \<^verbatim>\<open>__doc__\<close> in the dict, and
  \<^verbatim>\<open>type\<close> adds \<^verbatim>\<open>__dict__\<close> and \<^verbatim>\<open>__weakref__\<close>, so these four attributes are there, in
  this order, before the first variant is set (CPython 3.9 to 3.11).
\<close>

datatype attribute = Constructor "string list" | Other

type_synonym class_dict = "(string \<times> attribute) list"

definition EnumDef :: class_dict where
  "EnumDef = [(''__module__'', Other), (''__doc__'', Other), (''__dict__'', Other), (''__weakref__'', Other)]"

definition unit_struct :: attribute where
  "unit_struct = Constructor []"

definition tuple_struct :: attribute where
  "tuple_struct = Constructor [TUPLE_DATA]"

definition clike_struct :: "string list \<Rightarrow> attribute" where
  "clike_struct fields = Constructor fields"

text \<open>
  \<^verbatim>\<open>setattr(enum_def, name, value)\<close> on a class, where \<open>value\<close> is a constructor. The names that
  \<^verbatim>\<open>type\<close> and \<^verbatim>\<open>object\<close> keep in the type object itself are refused: \<^verbatim>\<open>__name__\<close>,
  \<^verbatim>\<open>__qualname__\<close>, \<^verbatim>\<open>__bases__\<close> and \<^verbatim>\<open>__class__\<close> take no constructor (TypeError), and the
  read-only ones raise AttributeError. Every other name is stored in the dict of the
  class: a name already there keeps its place and takes the new value, a new name comes
  last.
\<close>

definition setattr_refused :: "string \<Rightarrow> error option" where
  "setattr_refused name =
     (if name \<in> set [''__name__'', ''__qualname__'', ''__bases__'', ''__class__''] then Some TypeError
      else if name \<in> set [''__dict__'', ''__mro__'', ''__base__'', ''__basicsize__'', ''__itemsize__'',
                ''__flags__'', ''__weakrefoffset__'', ''__dictoffset__'', ''__text_signature__'']
      then Some AttributeError
      else None)"

fun dict_setitem :: "class_dict \<Rightarrow> string \<Rightarrow> attribute \<Rightarrow> class_dict" where
  "dict_setitem [] n v = [(n, v)]"
| "dict_setitem (a # as) n v = (if fst a = n then (n, v) # as else a # dict_setitem as n v)"

definition enum_setattr :: "class_dict \<Rightarrow> string \<Rightarrow> attribute \<Rightarrow> error + class_dict" where
  "enum_setattr enum_def name v =
     (case setattr_refused name of
        Some err \<Rightarrow> Inl err
      | None \<Rightarrow> Inr (dict_setitem enum_def name v))"

definition check_name_not_null :: "string option \<Rightarrow> error + unit" where
  "check_name_not_null name = (if name = None then Inl ValueError else Inr ())"

text \<open>
  \<^verbatim>\<open>_check_variant_name\<close>. The test \<^verbatim>\<open>name[0] == "_"\<close> raises IndexError on an empty string;
  no construct has an empty name (see \<open>name_of\<close>).
\<close>

definition check_variant_name :: "string option \<Rightarrow> error + unit" where
  "check_variant_name name =
     bind (check_name_not_null name) (\<lambda>_.
       case name of
         None \<Rightarrow> Inl ValueError
       | Some n \<Rightarrow>
           if n = TUPLE_DATA then Inl ValueError
           else (case n of
                   [] \<Rightarrow> Inl IndexError
                 | c # cs \<Rightarrow> if c = CHR ''_'' then Inl ValueError else Inr ()))"

text \<open>The loop of \<^verbatim>\<open>_handle_cstruct_variant\<close>: the names of the fields, each checked in turn.\<close>

fun subcon_names :: "construct list \<Rightarrow> error + string list" where
  "subcon_names [] = Inr []"
| "subcon_names (s # ss) =
     bind (check_variant_name (name_of s)) (\<lambda>_.
       bind (subcon_names ss) (\<lambda>ns. Inr (the (name_of s) # ns)))"

definition handle_cstruct_variant :: "construct list \<Rightarrow> string \<Rightarrow> class_dict \<Rightarrow> error + class_dict" where
  "handle_cstruct_variant subcons variant_name enum_def =
     bind (subcon_names subcons) (\<lambda>ns. enum_setattr enum_def variant_name (clike_struct ns))"

text \<open>\<^verbatim>\<open>variant.subcon if isinstance(variant, Renamed) else variant\<close>.\<close>

fun underlying_variant :: "construct \<Rightarrow> construct" where
  "underlying_variant (Renamed n sc) = sc"
| "underlying_variant variant = variant"

definition handle_struct_variant :: "construct \<Rightarrow> class_dict \<Rightarrow> error + class_dict" where
  "handle_struct_variant variant enum_def =
     (case name_of variant of
        None \<Rightarrow> Inl ValueError
      | Some variant_name \<Rightarrow>
          (case underlying_variant variant of
             Sequence scs \<Rightarrow> enum_setattr enum_def variant_name tuple_struct
           | Struct scs \<Rightarrow> handle_cstruct_variant scs variant_name enum_def
           | _ \<Rightarrow> Inl ValueError))"

fun make_enum_loop :: "construct variant list \<Rightarrow> class_dict \<Rightarrow> error + class_dict" where
  "make_enum_loop [] enum_def = Inr enum_def"
| "make_enum_loop (VariantName s # vs) enum_def =
     bind (enum_setattr enum_def s unit_struct) (make_enum_loop vs)"
| "make_enum_loop (VariantSubcon c # vs) enum_def =
     bind (handle_struct_variant c enum_def) (make_enum_loop vs)"

text \<open>
  \<^verbatim>\<open>sumtype(klass)\<close>, of the library sumtypes, makes a class of every constructor that the
  dict of the class holds, in the order of the dict, and keeps their names in the class
  attribute \<^verbatim>\<open>_sumtype_constructor_names\<close>. \<^verbatim>\<open>rust_enum\<close> then sets \<^verbatim>\<open>index\<close>, the place in
  that list, on \<^verbatim>\<open>getattr(indexed, cname)\<close> for each name: for a constructor that is itself
  named \<^verbatim>\<open>_sumtype_constructor_names\<close> this is the list of names, whose attribute \<^verbatim>\<open>index\<close>
  is read-only (AttributeError). The result is modelled by the constructors in their
  order, each with its fields. What sumtypes and attrs make of a name to which Python
  gives a meaning of its own (\<^verbatim>\<open>__init__\<close>, \<^verbatim>\<open>__eq__\<close>, a field named as a keyword) is
  beyond this model, which treats it as any other name.
\<close>

fun sumtype :: "class_dict \<Rightarrow> rust_enum" where
  "sumtype [] = []"
| "sumtype (a # as) =
     (case snd a of
        Constructor fields \<Rightarrow> (fst a, fields) # sumtype as
      | Other \<Rightarrow> sumtype as)"

definition rust_enum :: "class_dict \<Rightarrow> error + rust_enum" where
  "rust_enum klass =
     (let indexed = sumtype klass
      in if ''_sumtype_constructor_names'' \<in> set (map fst indexed) then Inl AttributeError
         else Inr indexed)"

definition make_enum :: "construct variant list \<Rightarrow> error + rust_enum" where
  "make_enum variants = bind (make_enum_loop variants EnumDef) rust_enum"

text \<open>\<^verbatim>\<open>Enum.__init__\<close>.\<close>

definition Enum_init :: "construct variant list \<Rightarrow> error + construct" where
  "Enum_init variants = bind (make_enum variants) (\<lambda>e. Inr (Enum e variants))"

text \<open>\<^verbatim>\<open>getitem\<close> and list indexing with an index that is not negative.\<close>

definition getitem :: "'a list \<Rightarrow> nat \<Rightarrow> error + 'a" where
  "getitem xs i = (if i < length xs then Inr (xs ! i) else Inl IndexError)"

text \<open>
  Indexing of a list or tuple with an object, as \<^verbatim>\<open>self.variants[index]\<close> in \<^verbatim>\<open>Enum._build\<close>:
  the index is an integer (or a bool), a negative one counts from the end.
\<close>

definition tuple_getitem :: "'a list \<Rightarrow> val \<Rightarrow> error + 'a" where
  "tuple_getitem xs index =
     (case as_int index of
        None \<Rightarrow> Inl TypeError
      | Some i \<Rightarrow>
          (let k = (if i < 0 then i + int (length xs) else i)
           in if 0 \<le> k \<and> k < int (length xs) then Inr (xs ! nat k) else Inl IndexError))"

text \<open>
  A call of what \<^verbatim>\<open>self.enum.getitem(index)\<close> returns, \<^verbatim>\<open>getattr(cls, name)\<close> for the name
  number \<open>index\<close>, with positional and keyword arguments. For the name \<^verbatim>\<open>getitem\<close> this is
  the classmethod that \<^verbatim>\<open>rust_enum\<close> has put in the place of the constructor, and none of
  the calls of \<^verbatim>\<open>Enum._parse\<close> fits it (TypeError). Otherwise it is the constructor \<open>ctor\<close>:
  the \<^verbatim>\<open>__init__\<close> that attrs writes takes every field exactly once.
\<close>

definition instantiate ::
  "nat \<Rightarrow> string \<times> string list \<Rightarrow> val list \<Rightarrow> (string \<times> val) list \<Rightarrow> error + val" where
  "instantiate index ctor args kwargs =
     (let fields = snd ctor; rest = drop (length args) fields
      in if fst ctor \<noteq> ''getitem'' \<and> length args \<le> length fields \<and> distinct fields
            \<and> distinct (map fst kwargs) \<and> set (map fst kwargs) = set rest
         then Inr (VVariant index (fst ctor)
                (zip fields args @ map (\<lambda>f. (f, the (map_of kwargs f))) rest))
         else Inl TypeError)"

text \<open>
  \<^verbatim>\<open>obj.index\<close> on an instance of a constructor: \<^verbatim>\<open>rust_enum\<close> sets \<^verbatim>\<open>index\<close> on the class of
  the constructor, so a field of the instance that is named \<^verbatim>\<open>index\<close> comes first.
\<close>

definition obj_index :: "nat \<Rightarrow> (string \<times> val) list \<Rightarrow> val" where
  "obj_index index fields =
     (case map_of fields ''index'' of Some v \<Rightarrow> v | None \<Rightarrow> VInt (int index))"

text \<open>
  The keyword arguments \<^verbatim>\<open>Enum._parse\<close> takes from a parsed Container:
  \<^verbatim>\<open>{key: val for key, val in container.items() if key[0] != "_"}\<close>.
\<close>

fun container_kwargs :: "(val \<times> val) list \<Rightarrow> error + (string \<times> val) list" where
  "container_kwargs [] = Inr []"
| "container_kwargs (kv # kvs) =
     (case fst kv of
        VStr [] \<Rightarrow> Inl IndexError
      | VStr (c # cs) \<Rightarrow>
          bind (container_kwargs kvs)
            (\<lambda>kw. Inr (if c \<noteq> CHR ''_'' then (c # cs, snd kv) # kw else kw))
      | _ \<Rightarrow> Inl TypeError)"

text \<open>
  \<^verbatim>\<open>attr.asdict(obj)\<close> with its defaults (\<^verbatim>\<open>recurse=True\<close>,
  \<^verbatim>\<open>retain_collection_types=False\<close>): an attrs instance becomes the dict of its fields, and
  so does every attrs instance inside it; tuples, lists and sets become lists (tuples
  where they are keys of a dict).
\<close>

fun asdict_anything :: "bool \<Rightarrow> val \<Rightarrow> val" where
  "asdict_anything is_key (VVariant i n fs) =
     VDict (map (\<lambda>f. (VStr (fst f), asdict_anything False (snd f))) fs)"
| "asdict_anything is_key (VList xs) =
     (if is_key then VTuple else VList) (map (asdict_anything False) xs)"
| "asdict_anything is_key (VTuple xs) =
     (if is_key then VTuple else VList) (map (asdict_anything False) xs)"
| "asdict_anything is_key (VSet xs) =
     (if is_key then VTuple else VList) (map (asdict_anything False) xs)"
| "asdict_anything is_key (VDict kvs) =
     VDict (map (\<lambda>kv. (asdict_anything True (fst kv), asdict_anything False (snd kv))) kvs)"
| "asdict_anything is_key v = v"

definition asdict :: "val \<Rightarrow> error + (val \<times> val) list" where
  "asdict obj =
     (case obj of
        VVariant i n fs \<Rightarrow> Inr (map (\<lambda>f. (VStr (fst f), asdict_anything False (snd f))) fs)
      | _ \<Rightarrow> Inl ValueError)"


text \<open>
  What \<^verbatim>\<open>Enum._build\<close> hands to the builder of the variant: \<^verbatim>\<open>as_dict[TUPLE_DATA]\<close>, or
  \<^verbatim>\<open>as_dict\<close> itself when there is no such key.
\<close>

definition to_build :: "(val \<times> val) list \<Rightarrow> val" where
  "to_build as_dict =
     (case dict_get as_dict (VStr TUPLE_DATA) of Some t \<Rightarrow> t | None \<Rightarrow> VDict as_dict)"

section \<open>Parsing and building\<close>

text \<open>Subcons parsed one after the other from one stream; objects built one after the other.\<close>

fun parse_all ::
  "('c \<Rightarrow> byte list \<Rightarrow> error + (val \<times> byte list)) \<Rightarrow> 'c list \<Rightarrow> byte list
   \<Rightarrow> error + (val list \<times> byte list)" where
  "parse_all p [] stream = Inr ([], stream)"
| "parse_all p (c # cs) stream =
     bind (p c stream) (\<lambda>(v, rest).
       bind (parse_all p cs rest) (\<lambda>(vs, rest'). Inr (v # vs, rest')))"

lemma parse_all_cong [fundef_cong]:
  "cs = cs' \<Longrightarrow> stream = stream' \<Longrightarrow> (\<And>c st. c \<in> set cs' \<Longrightarrow> p c st = p' c st)
   \<Longrightarrow> parse_all p cs stream = parse_all p' cs' stream'"
  by (induction cs arbitrary: cs' stream stream') (auto simp: bind_def split: sum.splits)

fun build_all ::
  "('c \<Rightarrow> val \<Rightarrow> error + byte list) \<Rightarrow> ('c \<times> (error + val)) list \<Rightarrow> error + byte list" where
  "build_all b [] = Inr []"
| "build_all b (cx # cxs) =
     bind (snd cx) (\<lambda>x.
       bind (b (fst cx) x) (\<lambda>data.
         bind (build_all b cxs) (\<lambda>data'. Inr (data @ data'))))"

lemma build_all_cong [fundef_cong]:
  "cxs = cxs' \<Longrightarrow> (\<And>c x. c \<in> fst ` set cxs' \<Longrightarrow> b c x = b' c x)
   \<Longrightarrow> build_all b cxs = build_all b' cxs'"
  by (induction cxs arbitrary: cxs') (auto simp: bind_def split: sum.splits)

text \<open>
  \<^verbatim>\<open>flagbuildnone\<close>: a Struct or Sequence may be built from \<^verbatim>\<open>None\<close> when all its subcons
  may; wrappers inherit the flag of their subcon.
\<close>

fun flagbuildnone :: "construct \<Rightarrow> bool" where
  "flagbuildnone (Sequence scs) = list_all flagbuildnone scs"
| "flagbuildnone (Struct scs) = list_all flagbuildnone scs"
| "flagbuildnone (Renamed n sc) = flagbuildnone sc"
| "flagbuildnone (Prefixed sc) = flagbuildnone sc"
| "flagbuildnone (StringAdapter sc) = flagbuildnone sc"
| "flagbuildnone (PrefixedArray sc) = flagbuildnone sc"
| "flagbuildnone (Array n sc) = flagbuildnone sc"
| "flagbuildnone (Option sc) = flagbuildnone sc"
| "flagbuildnone (HashMapAdapter sc) = flagbuildnone sc"
| "flagbuildnone (HashSetAdapter sc) = flagbuildnone sc"
| "flagbuildnone sc = False"

text \<open>The Container that \<^verbatim>\<open>Struct._parse\<close> fills: \<^verbatim>\<open>if sc.name: obj[sc.name] = subobj\<close>.\<close>

fun container_of :: "(val \<times> val) list \<Rightarrow> (string option \<times> val) list \<Rightarrow> (val \<times> val) list" where
  "container_of obj [] = obj"
| "container_of obj (nv # nvs) =
     (case fst nv of
        None \<Rightarrow> container_of obj nvs
      | Some n \<Rightarrow> container_of (if n \<noteq> [] then dict_set obj (VStr n) (snd nv) else obj) nvs)"

text \<open>The object \<^verbatim>\<open>Struct._build\<close> hands to a subcon: \<^verbatim>\<open>obj.get(sc.name, None)\<close> or \<^verbatim>\<open>obj[sc.name]\<close>.\<close>

definition name_key :: "construct \<Rightarrow> val" where
  "name_key sc = (case name_of sc of None \<Rightarrow> VNone | Some n \<Rightarrow> VStr n)"

definition struct_subobj :: "(val \<times> val) list \<Rightarrow> construct \<Rightarrow> error + val" where
  "struct_subobj obj sc =
     (case dict_get obj (name_key sc) of
        Some v \<Rightarrow> Inr v
      | None \<Rightarrow> if flagbuildnone sc then Inr VNone else Inl KeyError)"

lemma size_list_member: "c \<in> set cs \<Longrightarrow> size c < Suc (size_list size cs)"
  by (induction cs) auto

lemma size_variant_nth:
  "i < length vs \<Longrightarrow> vs ! i = VariantSubcon c \<Longrightarrow> size c < Suc (size_list (size_variant size) vs)"
proof -
  assume a: "i < length vs" and b: "vs ! i = VariantSubcon c"
  have "VariantSubcon c \<in> set vs" using a b by (metis nth_mem)
  then have "size_variant size (VariantSubcon c) \<le> size_list (size_variant size) vs"
    by (rule size_list_estimation') simp
  then show ?thesis by simp
qed

function c_parse :: "construct \<Rightarrow> byte list \<Rightarrow> error + (val \<times> byte list)" where
  "c_parse Flag stream =
     bind (stream_read stream 1) (\<lambda>(data, rest). Inr (VBool (data \<noteq> [0]), rest))"
| "c_parse (FormatField n is_signed) stream = FormatField_parse n is_signed stream"
| "c_parse (BytesInteger n is_signed) stream = BytesInteger_parse n is_signed stream"
| "c_parse GreedyBytes stream = Inr (VBytes stream, [])"
| "c_parse (Prefixed sc) stream =
     bind (FormatField_parse 4 False stream) (\<lambda>(len, rest).
       case len of
         VInt n \<Rightarrow>
           bind (stream_read rest (nat n)) (\<lambda>(data, rest').
             bind (c_parse sc data) (\<lambda>(v, unread). Inr (v, rest')))
       | _ \<Rightarrow> Inl TypeError)"
| "c_parse (StringAdapter sc) stream =
     bind (c_parse sc stream) (\<lambda>(obj, rest).
       bind (StringAdapter_decode obj) (\<lambda>v. Inr (v, rest)))"
| "c_parse (PrefixedArray sc) stream =
     bind (FormatField_parse 4 False stream) (\<lambda>(cnt, rest).
       case cnt of
         VInt n \<Rightarrow>
           bind (parse_all c_parse (replicate (nat n) sc) rest) (\<lambda>(vs, rest'). Inr (VList vs, rest'))
       | _ \<Rightarrow> Inl TypeError)"
| "c_parse (Array cnt sc) stream =
     bind (parse_all c_parse (replicate cnt sc) stream) (\<lambda>(vs, rest). Inr (VList vs, rest))"
| "c_parse (Sequence scs) stream =
     bind (parse_all c_parse scs stream) (\<lambda>(vs, rest). Inr (VList vs, rest))"
| "c_parse (Struct scs) stream =
     bind (parse_all c_parse scs stream) (\<lambda>(vs, rest).
       Inr (VDict (container_of [] (zip (map name_of scs) vs)), rest))"
| "c_parse (Renamed n sc) stream = c_parse sc stream"
| "c_parse (Option sc) stream =
     bind (stream_read stream 1) (\<lambda>(discriminator, rest).
       if discriminator = [0] then Inr (VNone, rest) else c_parse sc rest)"
| "c_parse (Enum e variants) stream =
     bind (stream_read stream 1) (\<lambda>(index_bytes, rest).
       let index = unat (hd index_bytes) in
       bind (getitem e index) (\<lambda>variant.
         if index < length variants then
           (case variants ! index of
              VariantName s \<Rightarrow> bind (instantiate index variant [] []) (\<lambda>v. Inr (v, rest))
            | VariantSubcon parser \<Rightarrow>
                bind (c_parse parser rest) (\<lambda>(container, rest').
                  case container of
                    VDict kvs \<Rightarrow>
                      bind (container_kwargs kvs) (\<lambda>as_dict.
                        bind (instantiate index variant [] as_dict) (\<lambda>v. Inr (v, rest')))
                  | _ \<Rightarrow>
                      (case py_iter container of
                         None \<Rightarrow> Inl TypeError
                       | Some xs \<Rightarrow>
                           bind (instantiate index variant [VTuple xs] []) (\<lambda>v. Inr (v, rest')))))
         else Inl IndexError))"
| "c_parse (HashMapAdapter sc) stream =
     bind (c_parse sc stream) (\<lambda>(obj, rest). bind (py_dict obj) (\<lambda>v. Inr (v, rest)))"
| "c_parse (HashSetAdapter sc) stream =
     bind (c_parse sc stream) (\<lambda>(obj, rest). bind (py_set obj) (\<lambda>v. Inr (v, rest)))"
  by pat_completeness auto
termination
  by (relation "measure (\<lambda>(c, stream). size c)")
    (auto simp: size_variant_nth size_list_member)


lemma tuple_getitem_nth:
  "tuple_getitem vs i = Inr v \<Longrightarrow> \<exists>k < length vs. vs ! k = v"
proof -
  assume a: "tuple_getitem vs i = Inr v"
  then obtain j where j: "as_int i = Some j"
    by (auto simp: tuple_getitem_def split: option.splits)
  define k where "k = (if j < 0 then j + int (length vs) else j)"
  from a j have k: "0 \<le> k" "k < int (length vs)" "vs ! nat k = v"
    by (auto simp: tuple_getitem_def Let_def k_def split: if_splits)
  from k(1,2) have "nat k < length vs" by linarith
  with k(3) show ?thesis by blast
qed

lemma size_variant_getitem:
  "tuple_getitem vs i = Inr (VariantSubcon c) \<Longrightarrow> size c < Suc (size_list (size_variant size) vs)"
  using tuple_getitem_nth [of vs i "VariantSubcon c"] size_variant_nth [of _ vs c] by blast

text \<open>
  \<^verbatim>\<open>Sequence._build\<close> takes \<^verbatim>\<open>next(objiter)\<close> for each subcon in turn: an object with too few
  items raises StopIteration where its items run out, and items left over are ignored.
  \<^verbatim>\<open>Enum._build\<close> reads \<^verbatim>\<open>obj.index\<close>, takes \<^verbatim>\<open>self.variants[index]\<close>, converts the object with
  \<^verbatim>\<open>attr.asdict\<close> and writes \<^verbatim>\<open>U8.build(index)\<close>; the \<^verbatim>\<open>index\<close> of a list, tuple, str or bytes
  is a method, which indexes no tuple (TypeError).
\<close>

function c_build :: "construct \<Rightarrow> val \<Rightarrow> error + byte list" where
  "c_build Flag obj = Inr [if truthy obj then 1 else 0]"
| "c_build (FormatField n is_signed) obj = FormatField_build n is_signed obj"
| "c_build (BytesInteger n is_signed) obj = BytesInteger_build n is_signed obj"
| "c_build GreedyBytes obj =
     (case obj of
        VBytes data \<Rightarrow> Inr data
      | VNone \<Rightarrow> Inl TypeError
      | VBool b \<Rightarrow> Inl TypeError
      | VInt i \<Rightarrow> Inl TypeError
      | VVariant i n fs \<Rightarrow> Inl TypeError
      | _ \<Rightarrow> Inl StringError)"
| "c_build (Prefixed sc) obj =
     bind (c_build sc obj) (\<lambda>data.
       bind (FormatField_build 4 False (VInt (int (length data)))) (\<lambda>len. Inr (len @ data)))"
| "c_build (StringAdapter sc) obj = bind (StringAdapter_encode obj) (c_build sc)"
| "c_build (PrefixedArray sc) obj =
     (case py_iter obj of
        None \<Rightarrow> Inl TypeError
      | Some xs \<Rightarrow>
          bind (FormatField_build 4 False (VInt (int (length xs)))) (\<lambda>cnt.
            bind (build_all c_build (zip (replicate (length xs) sc) (map Inr xs)))
              (\<lambda>data. Inr (cnt @ data))))"
| "c_build (Array cnt sc) obj =
     (case py_iter obj of
        None \<Rightarrow> Inl TypeError
      | Some xs \<Rightarrow>
          if length xs \<noteq> cnt then Inl RangeError
          else build_all c_build (zip (replicate (length xs) sc) (map Inr xs)))"
| "c_build (Sequence scs) obj =
     (case (if obj = VNone then Some (replicate (length scs) VNone) else py_iter obj) of
        None \<Rightarrow> Inl TypeError
      | Some xs \<Rightarrow>
          build_all c_build
            (zip scs (map Inr xs @ replicate (length scs - length xs) (Inl StopIteration))))"
| "c_build (Struct scs) obj =
     (case obj of
        VNone \<Rightarrow> build_all c_build (map (\<lambda>sc. (sc, struct_subobj [] sc)) scs)
      | VDict kvs \<Rightarrow> build_all c_build (map (\<lambda>sc. (sc, struct_subobj kvs sc)) scs)
      | _ \<Rightarrow> Inl TypeError)"
| "c_build (Renamed n sc) obj = c_build sc obj"
| "c_build (Option sc) obj =
     (if obj = VNone then Inr [0]
      else bind (c_build sc obj) (\<lambda>data. Inr (1 # data)))"
| "c_build (Enum e variants) obj =
     (case obj of
        VVariant i n fs \<Rightarrow>
          bind (tuple_getitem variants (obj_index i fs)) (\<lambda>builder.
            bind (asdict obj) (\<lambda>as_dict.
              bind (FormatField_build 1 False (obj_index i fs)) (\<lambda>tag.
                if as_dict \<noteq> [] then
                  (case builder of
                     VariantName s \<Rightarrow> Inl AttributeError
                   | VariantSubcon b \<Rightarrow>
                       bind (c_build b (to_build as_dict)) (\<lambda>data. Inr (tag @ data)))
                else Inr tag)))
      | VList xs \<Rightarrow> Inl TypeError
      | VTuple xs \<Rightarrow> Inl TypeError
      | VStr x \<Rightarrow> Inl TypeError
      | VBytes x \<Rightarrow> Inl TypeError
      | _ \<Rightarrow> Inl AttributeError)"
| "c_build (HashMapAdapter sc) obj =
     (case obj of
        VDict kvs \<Rightarrow>
          bind (py_sorted (map (\<lambda>kv. VTuple [fst kv, snd kv]) kvs)) (\<lambda>items. c_build sc (VList items))
      | _ \<Rightarrow> Inl AttributeError)"
| "c_build (HashSetAdapter sc) obj =
     (case py_iter obj of
        None \<Rightarrow> Inl TypeError
      | Some xs \<Rightarrow> bind (py_sorted xs) (\<lambda>ys. c_build sc (VList ys)))"
  by pat_completeness auto
termination
  by (relation "measure (\<lambda>(c, obj). size c)")
    (auto simp: size_variant_getitem size_list_member dest!: set_zip_leftD)

text \<open>The public methods \<^verbatim>\<open>Construct.build(obj)\<close> and \<^verbatim>\<open>Construct.parse(data)\<close>.\<close>

definition build :: "construct \<Rightarrow> val \<Rightarrow> error + byte list" where
  "build c obj = c_build c obj"

definition parse :: "construct \<Rightarrow> byte list \<Rightarrow> error + val" where
  "parse c data = bind (c_parse c data) (\<lambda>(v, rest). Inr v)"


section \<open>The size probe\<close>

text \<open>
  \<^verbatim>\<open>Construct.sizeof()\<close>: the static size, or SizeofError where the size depends on the data.
\<close>

fun sum_sizes :: "(error + nat) list \<Rightarrow> error + nat" where
  "sum_sizes [] = Inr 0"
| "sum_sizes (r # rs) = bind r (\<lambda>n. bind (sum_sizes rs) (\<lambda>m. Inr (n + m)))"

fun sizeof :: "construct \<Rightarrow> error + nat" where
  "sizeof Flag = Inr 1"
| "sizeof (FormatField n is_signed) = Inr n"
| "sizeof (BytesInteger n is_signed) = Inr n"
| "sizeof GreedyBytes = Inl SizeofError"
| "sizeof (Prefixed sc) = bind (sizeof sc) (\<lambda>n. Inr (4 + n))"
| "sizeof (StringAdapter sc) = sizeof sc"
| "sizeof (PrefixedArray sc) = Inl SizeofError"
| "sizeof (Array cnt sc) = bind (sizeof sc) (\<lambda>n. Inr (cnt * n))"
| "sizeof (Sequence scs) = sum_sizes (map sizeof scs)"
| "sizeof (Struct scs) = sum_sizes (map sizeof scs)"
| "sizeof (Renamed n sc) = sizeof sc"
| "sizeof (Option sc) = Inl SizeofError"
| "sizeof (Enum e variants) = Inl SizeofError"
| "sizeof (HashMapAdapter sc) = sizeof sc"
| "sizeof (HashSetAdapter sc) = sizeof sc"

text \<open>
  \<^verbatim>\<open>_calc_bytes_to_read(stream, path, subcon)\<close> returns the pair \<^verbatim>\<open>(bytes_to_read, aux)\<close> and
  leaves the stream after what it read. In the Option branch the recursive call is made
  on \<^verbatim>\<open>subcon\<close> itself, and in both recursive branches the pair that the call returns is
  stored in \<^verbatim>\<open>bytes_to_read\<close>: so \<open>bytes_to_read\<close> is a Python value, an integer or a
  tuple. Each recursive call comes after one byte was read, so the function ends with the
  stream.
\<close>

function calc_bytes_to_read :: "construct \<Rightarrow> byte list \<Rightarrow> error + ((val \<times> val) \<times> byte list)" where
  "calc_bytes_to_read subcon stream =
     (case sizeof subcon of
        Inr bytes_to_read \<Rightarrow> Inr ((VInt (int bytes_to_read), VNone), stream)
      | Inl err \<Rightarrow>
          (case subcon of
             Option sc \<Rightarrow>
               bind (stream_read stream 1) (\<lambda>(discriminator, rest).
                 if discriminator = [0] then Inr ((VInt 0, VNone), rest)
                 else bind (calc_bytes_to_read subcon rest)
                        (\<lambda>(r, rest'). Inr ((VTuple [fst r, snd r], VNone), rest')))
           | Enum e variants \<Rightarrow>
               bind (stream_read stream 1) (\<lambda>(index_bytes, rest).
                 let index = unat (hd index_bytes) in
                 bind (getitem variants index) (\<lambda>subsubcon.
                   case subsubcon of
                     VariantName s \<Rightarrow>
                       bind (getitem e index) (\<lambda>variant.
                         bind (instantiate index variant [] []) (\<lambda>aux. Inr ((VInt 0, aux), rest)))
                   | VariantSubcon ssc \<Rightarrow>
                       bind (calc_bytes_to_read ssc rest)
                         (\<lambda>(r, rest'). Inr ((VTuple [fst r, snd r], VInt (int index)), rest'))))
           | _ \<Rightarrow> Inl ValueError))"
  by pat_completeness auto
termination
  by (relation "measure (\<lambda>(c, stream). length stream)")
    (auto simp: stream_read_def split: if_splits)


declare calc_bytes_to_read.simps [simp del]

section \<open>Floats without NaN\<close>

text \<open>
  A Python \<^verbatim>\<open>float\<close> is an IEEE-754 binary64 number, modelled by its three fields: the sign
  bit, the 11-bit biased exponent and the 52-bit fraction. \<^verbatim>\<open>math.isnan\<close> holds when the
  exponent is all ones and the fraction is not zero.
\<close>

datatype pyfloat = PyFloat (fsign: bool) (fexp: nat) (ffrac: nat)

definition isnan :: "pyfloat \<Rightarrow> bool" where
  "isnan x = (fexp x = 2047 \<and> ffrac x \<noteq> 0)"

text \<open>The format character of a \<^verbatim>\<open>FormatFieldNoNan\<close>: \<^verbatim>\<open>"<f"\<close> for F32, \<^verbatim>\<open>"<d"\<close> for F64.\<close>

datatype fmtchar = Fmt_f | Fmt_d

definition F32 :: fmtchar where
  "F32 = Fmt_f"

definition F64 :: fmtchar where
  "F64 = Fmt_d"

fun fmt_length :: "fmtchar \<Rightarrow> nat" where
  "fmt_length Fmt_f = 4"
| "fmt_length Fmt_d = 8"

fun bit_length :: "nat \<Rightarrow> nat" where
  "bit_length n = (if n = 0 then 0 else Suc (bit_length (n div 2)))"

declare bit_length.simps [simp del]

text \<open>
  \<^verbatim>\<open>struct.unpack("<d", data)\<close> reads the eight bytes as the binary64 number they are.
  \<^verbatim>\<open>struct.unpack("<f", data)\<close> reads a binary32 number (sign, 8-bit exponent \<open>e\<close>, 23-bit
  fraction \<open>m\<close>) and widens it to binary64, which is exact: a NaN stays a NaN (quiet), an
  infinity an infinity, a subnormal \<open>m * 2^-149\<close> becomes a normal number.
\<close>

definition binary64_of_int :: "int \<Rightarrow> pyfloat" where
  "binary64_of_int n = PyFloat (n div 2 ^ 63 mod 2 = 1) (nat (n div 2 ^ 52 mod 2048)) (nat (n mod 2 ^ 52))"

definition widen :: "bool \<Rightarrow> nat \<Rightarrow> nat \<Rightarrow> pyfloat" where
  "widen s e m =
     (if e = 255 then
        (if m = 0 then PyFloat s 2047 0 else PyFloat s 2047 (2 ^ 51 + (m * 2 ^ 29) mod 2 ^ 51))
      else if e = 0 then
        (if m = 0 then PyFloat s 0 0
         else let k = bit_length m - 1 in PyFloat s (k + 874) ((m - 2 ^ k) * 2 ^ (52 - k)))
      else PyFloat s (e + 896) (m * 2 ^ 29))"

definition binary32_of_int :: "int \<Rightarrow> pyfloat" where
  "binary32_of_int n = widen (n div 2 ^ 31 mod 2 = 1) (nat (n div 2 ^ 23 mod 256)) (nat (n mod 2 ^ 23))"

fun struct_unpack :: "fmtchar \<Rightarrow> byte list \<Rightarrow> pyfloat" where
  "struct_unpack Fmt_f data = binary32_of_int (le_int data)"
| "struct_unpack Fmt_d data = binary64_of_int (le_int data)"

text \<open>
  \<^verbatim>\<open>struct.pack("<d", x)\<close> writes the eight bytes of the number. \<^verbatim>\<open>struct.pack("<f", x)\<close>
  rounds the number to binary32 (to nearest, ties to even) and raises OverflowError when
  a finite number rounds to an infinity. \<open>narrow\<close> gives the binary32 bits of a number that
  is not a NaN: the number is \<open>M * 2^E\<close>; \<open>q\<close> is the exponent of the last bit kept.
\<close>

definition int_of_binary64 :: "pyfloat \<Rightarrow> int" where
  "int_of_binary64 x = (if fsign x then 2 ^ 63 else 0) + int (fexp x) * 2 ^ 52 + int (ffrac x)"

definition round_even :: "nat \<Rightarrow> nat \<Rightarrow> nat" where
  "round_even M shift =
     (if shift = 0 then M
      else let sig = M div 2 ^ shift; rem = M mod 2 ^ shift; half = 2 ^ (shift - 1)
           in if half < rem \<or> (rem = half \<and> odd sig) then sig + 1 else sig)"

definition narrow :: "pyfloat \<Rightarrow> error + int" where
  "narrow x =
     (let sign = (if fsign x then 2 ^ 31 else 0 :: int) in
      if fexp x = 2047 then Inr (sign + 255 * 2 ^ 23)
      else if fexp x = 0 \<and> ffrac x = 0 then Inr sign
      else
        let M = (if fexp x = 0 then ffrac x else 2 ^ 52 + ffrac x);
            E = (if fexp x = 0 then - 1074 else int (fexp x) - 1075);
            q = max (E + int (bit_length M) - 24) (- 149);
            sig = (if q \<le> E then M * 2 ^ nat (E - q) else round_even M (nat (q - E)))
        in if sig < 2 ^ 23 then Inr (sign + int sig)
           else if sig = 2 ^ 24 then
             (if 255 \<le> q + 151 then Inl OverflowError else Inr (sign + (q + 151) * 2 ^ 23))
           else if 255 \<le> q + 150 then Inl OverflowError
           else Inr (sign + (q + 150) * 2 ^ 23 + (int sig - 2 ^ 23)))"

fun struct_pack :: "fmtchar \<Rightarrow> pyfloat \<Rightarrow> error + byte list" where
  "struct_pack Fmt_f x = bind (narrow x) (\<lambda>n. Inr (le_bytes 4 n))"
| "struct_pack Fmt_d x = Inr (le_bytes 8 (int_of_binary64 x))"

text \<open>
  \<^verbatim>\<open>FormatFieldNoNan._parse\<close> and \<^verbatim>\<open>FormatFieldNoNan._build\<close>, for an object that is a
  float. Any exception of \<^verbatim>\<open>struct.pack\<close> becomes a FormatFieldError.
\<close>

definition FormatFieldNoNan_parse :: "fmtchar \<Rightarrow> byte list \<Rightarrow> error + (pyfloat \<times> byte list)" where
  "FormatFieldNoNan_parse fmt stream =
     bind (stream_read stream (fmt_length fmt)) (\<lambda>(data, rest).
       let parsed = struct_unpack fmt data
       in if isnan parsed then Inl ValueError else Inr (parsed, rest))"

definition FormatFieldNoNan_build :: "fmtchar \<Rightarrow> pyfloat \<Rightarrow> error + byte list" where
  "FormatFieldNoNan_build fmt obj =
     (if isnan obj then Inl ValueError
      else (case struct_pack fmt obj of
              Inl err \<Rightarrow> Inl FormatFieldError
            | Inr data \<Rightarrow> Inr data))"

text \<open>
  A byte string is a NaN pattern of its format when the exponent bits are all ones and
  the fraction bits are not all zero.
\<close>

fun nan_pattern :: "fmtchar \<Rightarrow> byte list \<Rightarrow> bool" where
  "nan_pattern Fmt_f data =
     (length data = 4 \<and> le_int data div 2 ^ 23 mod 256 = 255 \<and> le_int data mod 2 ^ 23 \<noteq> 0)"
| "nan_pattern Fmt_d data =
     (length data = 8 \<and> le_int data div 2 ^ 52 mod 2048 = 2047 \<and> le_int data mod 2 ^ 52 \<noteq> 0)"


section \<open>The accounts coder\<close>

text \<open>
  \<^verbatim>\<open>coder/accounts.py\<close>. Two things the coder uses are not part of the sources and are
  parameters here: \<^verbatim>\<open>hashlib.sha256\<close> (the function \<open>sha256\<close> from bytes to the digest)
  and \<^verbatim>\<open>typedef_layout\<close> (the list \<open>accounts\<close> gives, for every account of the IDL in
  order, its name and the layout \<^verbatim>\<open>typedef_layout(acc, idl.types)\<close>).
  A dict with keys of any type keeps its items in insertion order; \<open>dict_put\<close> is
  \<^verbatim>\<open>d[k] = v\<close> and \<open>lookup\<close> is \<^verbatim>\<open>d[k]\<close>.
\<close>

fun dict_put :: "('k \<times> 'v) list \<Rightarrow> 'k \<Rightarrow> 'v \<Rightarrow> ('k \<times> 'v) list" where
  "dict_put [] k v = [(k, v)]"
| "dict_put (p # ps) k v = (if fst p = k then (k, v) # ps else p # dict_put ps k v)"

definition lookup :: "('k \<times> 'v) list \<Rightarrow> 'k \<Rightarrow> error + 'v" where
  "lookup d k = (case map_of d k of None \<Rightarrow> Inl KeyError | Some v \<Rightarrow> Inr v)"

text \<open>A dict comprehension \<^verbatim>\<open>{key(x): value(x) for x in xs}\<close>; a value may raise.\<close>

fun dict_comp :: "('a \<Rightarrow> 'k) \<Rightarrow> ('a \<Rightarrow> error + 'v) \<Rightarrow> ('k \<times> 'v) list \<Rightarrow> 'a list \<Rightarrow> error + ('k \<times> 'v) list" where
  "dict_comp key val d [] = Inr d"
| "dict_comp key val d (x # xs) = bind (val x) (\<lambda>v. dict_comp key val (dict_put d (key x) v) xs)"

definition ACCOUNT_DISCRIMINATOR_SIZE :: nat where
  "ACCOUNT_DISCRIMINATOR_SIZE = 8"

definition account_discriminator :: "(byte list \<Rightarrow> byte list) \<Rightarrow> string \<Rightarrow> byte list" where
  "account_discriminator sha256 name = take 8 (sha256 (map byte_of_char (''account:'' @ name)))"

record accounts_coder =
  accounts_layout :: "(string \<times> construct) list"
  acc_name_to_discriminator :: "(string \<times> byte list) list"
  discriminator_to_acc_name :: "(byte list \<times> string) list"
  discriminator_to_typedef_layout :: "(byte list \<times> construct) list"

definition AccountsCoder_init ::
  "(byte list \<Rightarrow> byte list) \<Rightarrow> (string \<times> construct) list \<Rightarrow> error + accounts_coder" where
  "AccountsCoder_init sha256 accounts =
     bind (dict_comp fst (\<lambda>acc. Inr (snd acc)) [] accounts) (\<lambda>layouts.
     bind (dict_comp fst (\<lambda>acc. Inr (account_discriminator sha256 (fst acc))) [] accounts) (\<lambda>n2d.
     bind (dict_comp snd (\<lambda>item. Inr (fst item)) [] n2d) (\<lambda>d2n.
     bind (dict_comp snd (\<lambda>item. lookup layouts (fst item)) [] n2d) (\<lambda>d2l.
       Inr \<lparr>accounts_layout = layouts, acc_name_to_discriminator = n2d,
            discriminator_to_acc_name = d2n, discriminator_to_typedef_layout = d2l\<rparr>))))"

text \<open>
  The subcon of the coder is \<^verbatim>\<open>Sequence("discriminator" / Bytes(8), Switch(this.discriminator, cases))\<close>:
  construct's \<^verbatim>\<open>Bytes(8)\<close> reads and writes exactly eight bytes; \<^verbatim>\<open>Switch\<close> parses and builds
  with the case of the discriminator, and with \<^verbatim>\<open>Pass\<close> (nothing read or written, the
  value \<^verbatim>\<open>None\<close>) when there is no such case. An account to serialize is the pair of
  \<^verbatim>\<open>obj["name"]\<close> and \<^verbatim>\<open>obj["data"]\<close>.
\<close>

definition AccountsCoder_encode :: "accounts_coder \<Rightarrow> string \<times> val \<Rightarrow> error + (byte list \<times> val)" where
  "AccountsCoder_encode coder obj =
     bind (lookup (acc_name_to_discriminator coder) (fst obj)) (\<lambda>discriminator.
       Inr (discriminator, snd obj))"

definition AccountsCoder_decode :: "accounts_coder \<Rightarrow> byte list \<times> val \<Rightarrow> error + (string \<times> val)" where
  "AccountsCoder_decode coder obj =
     bind (lookup (discriminator_to_acc_name coder) (fst obj)) (\<lambda>name. Inr (name, snd obj))"

definition AccountsCoder_build :: "accounts_coder \<Rightarrow> string \<times> val \<Rightarrow> error + byte list" where
  "AccountsCoder_build coder obj =
     bind (AccountsCoder_encode coder obj) (\<lambda>(discriminator, data).
       if length discriminator \<noteq> ACCOUNT_DISCRIMINATOR_SIZE then Inl StreamError
       else bind (case map_of (discriminator_to_typedef_layout coder) discriminator of
                    Some layout \<Rightarrow> c_build layout data
                  | None \<Rightarrow> Inr [])
              (\<lambda>payload. Inr (discriminator @ payload)))"

definition AccountsCoder_parse ::
  "accounts_coder \<Rightarrow> byte list \<Rightarrow> error + ((string \<times> val) \<times> byte list)" where
  "AccountsCoder_parse coder stream =
     bind (stream_read stream ACCOUNT_DISCRIMINATOR_SIZE) (\<lambda>(discriminator, rest).
       bind (case map_of (discriminator_to_typedef_layout coder) discriminator of
               Some layout \<Rightarrow> c_parse layout rest
             | None \<Rightarrow> Inr (VNone, rest))
         (\<lambda>(data, rest').
            bind (AccountsCoder_decode coder (discriminator, data)) (\<lambda>acc. Inr (acc, rest'))))"

section \<open>Field names that are not accepted\<close>



section \<open>Values that Python orders\<close>

text \<open>
  \<^verbatim>\<open>sorted\<close> has one result, whatever the order its argument comes in, when \<^verbatim>\<open><\<close> is a
  strict total order on the values sorted: any two of them are different, are not
  \<^verbatim>\<open>==\<close>, and are ordered one way and not the other by \<^verbatim>\<open><\<close> (no TypeError), and \<^verbatim>\<open><\<close> is
  transitive on them. The keys of a dict of integers, or of strings, are such values.
\<close>

definition py_total :: "val list \<Rightarrow> bool" where
  "py_total xs =
     (distinct xs \<and>
      (\<forall>a \<in> set xs. \<forall>b \<in> set xs. a \<noteq> b \<longrightarrow>
         \<not> py_eq a b \<and>
         (py_lt a b = Some True \<and> py_lt b a = Some False \<or>
          py_lt a b = Some False \<and> py_lt b a = Some True)) \<and>
      (\<forall>a \<in> set xs. \<forall>b \<in> set xs. \<forall>c \<in> set xs.
         py_lt a b = Some True \<longrightarrow> py_lt b c = Some True \<longrightarrow> py_lt a c = Some True))"


(* DEFS-END *)

section \<open>Properties of the codecs\<close>

text \<open>The equations that evaluate \<^verbatim>\<open>Enum(*variants)\<close> on a given declaration.\<close>

lemmas Enum_init_simps =
  Enum_init_def make_enum_def rust_enum_def enum_setattr_def setattr_refused_def EnumDef_def
  unit_struct_def tuple_struct_def clike_struct_def handle_struct_variant_def
  handle_cstruct_variant_def check_variant_name_def check_name_not_null_def TUPLE_DATA_def

subsection \<open>Booleans\<close>

text \<open>
  Claim C4, as amended. \<^verbatim>\<open>Bool\<close> is construct's \<open>Flag\<close>: decoding reads exactly one byte,
  gives false on the byte 0x00 and true on every other byte, and fails only when the stream
  is empty. No byte value is rejected.
\<close>

theorem C4_bool_parse_nonzero_is_true:
  "c_parse Bool (b # rest) = Inr (VBool (b \<noteq> 0), rest) \<and> c_parse Bool [] = Inl StreamError"
  by (simp add: stream_read_def)

text \<open>
  Claim C4 as stated fails: the byte 0x02 decodes to true, it is not a decode error.
\<close>

theorem C4_bool_parse_two_counterexample: "parse Bool [0x02] = Inr (VBool True)"
  by (simp add: parse_def stream_read_def)

subsection \<open>Option\<close>

text \<open>
  Claim C9. \<^verbatim>\<open>Option._parse\<close> never rejects a tag byte: the byte 0x00 gives \<^verbatim>\<open>None\<close> and
  consumes nothing more; after any other first byte the rest of the stream is parsed by
  the inner codec, whatever that codec is.
\<close>

theorem C9_option_parse_tag:
  "c_parse (Option T) (0 # rest) = Inr (VNone, rest) \<and>
   (b \<noteq> 0 \<longrightarrow> c_parse (Option T) (b # rest) = c_parse T rest)"
  by (simp add: stream_read_def)

text \<open>The example of the claim: \<open>[0x02, 0x05]\<close> as \<open>Option U8\<close> is the value 5.\<close>

theorem C9_option_parse_tag_witness:
  "(2 :: byte) \<noteq> 0 \<and> c_parse (Option U8) [0x02, 0x05] = Inr (VInt 5, []) \<and>
   parse (Option U8) [0x02, 0x05] = Inr (VInt 5)"
  using C9_option_parse_tag [of U8 "[0x05]" 2]
  by (simp add: parse_def FormatField_parse_def stream_read_def int_of_le_def)


subsection \<open>The discriminant of an Enum on decode\<close>

text \<open>
  Claim C7. For an \<open>Enum\<close> with N declared variants, a stream whose first byte is N or
  more does not decode: \<^verbatim>\<open>getitem\<close> or \<^verbatim>\<open>self.variants[index]\<close> raises IndexError. This
  holds whatever class \<^verbatim>\<open>self.enum\<close> is, so in particular for the one \<^verbatim>\<open>_make_enum\<close> builds.
\<close>

theorem C7_enum_parse_discriminant_bound:
  "length variants \<le> unat b \<Longrightarrow>
   c_parse (Enum e variants) (b # rest) = Inl IndexError \<and>
   parse (Enum e variants) (b # rest) = Inl IndexError"
  by (simp add: parse_def stream_read_def Let_def getitem_def)

text \<open>A union of two unit variants, as \<^verbatim>\<open>Enum("A", "B")\<close> builds it, and the discriminant 2.\<close>

theorem C7_enum_parse_discriminant_bound_witness:
  "Enum_init [VariantName ''A'', VariantName ''B''] =
     Inr (Enum [(''A'', []), (''B'', [])] [VariantName ''A'', VariantName ''B'']) \<and>
   length [VariantName ''A'', VariantName ''B'' :: construct variant] \<le> unat (2 :: byte) \<and>
   parse (Enum [(''A'', []), (''B'', [])] [VariantName ''A'', VariantName ''B'']) [0x02, 0x07] = Inl IndexError"
  using C7_enum_parse_discriminant_bound
    [of "[VariantName ''A'', VariantName ''B'']" 2 "[(''A'', []), (''B'', [])]" "[0x07]"]
  by (simp add: Enum_init_simps)

subsection \<open>The size probe on an Option\<close>

text \<open>
  Claim C5, as amended. On an \<open>Option\<close> codec \<^verbatim>\<open>_calc_bytes_to_read\<close> reads the tag byte
  and, when the tag marks absence, returns 0: the number of bytes still to read, the
  tag itself not counted (\<^verbatim>\<open>_parse_key_or_val\<close> tests \<^verbatim>\<open>bytes_to_read == 0\<close> for this case).
\<close>

theorem C5_probe_option_absent:
  "calc_bytes_to_read (Option T) (0 # rest) = Inr ((VInt 0, VNone), rest)"
  by (subst calc_bytes_to_read.simps) (simp add: stream_read_def)

text \<open>
  Claim C5 as stated fails. For \<open>Option U8\<close> with a present value, \<open>[0x01, 0x05]\<close>, the
  probe does not report 2: it probes the same \<open>Option\<close> again on \<open>[0x05]\<close>, then on the
  empty stream, and raises StreamError. For the absent value it reports 0, not 1.
\<close>

theorem C5_probe_option_u8_counterexample:
  "calc_bytes_to_read (Option U8) [0x01, 0x05] = Inl StreamError \<and>
   calc_bytes_to_read (Option U8) [0x00] = Inr ((VInt 0, VNone), [])"
proof -
  have a: "calc_bytes_to_read (Option T) [] = Inl StreamError" for T
    by (subst calc_bytes_to_read.simps) (simp add: stream_read_def)
  have b: "calc_bytes_to_read (Option T) [0x05] = Inl StreamError" for T
    by (subst calc_bytes_to_read.simps) (simp add: stream_read_def a)
  have c: "calc_bytes_to_read (Option U8) [0x01, 0x05] = Inl StreamError"
    by (subst calc_bytes_to_read.simps) (simp add: stream_read_def b)
  have d: "calc_bytes_to_read (Option U8) [0x00] = Inr ((VInt 0, VNone), [])"
    by (subst calc_bytes_to_read.simps) (simp add: stream_read_def)
  from c d show ?thesis by simp
qed

subsection \<open>NaN\<close>

lemma isnan_binary64:
  "n div 2 ^ 52 mod 2048 = 2047 \<Longrightarrow> n mod 2 ^ 52 \<noteq> 0 \<Longrightarrow> isnan (binary64_of_int n)"
  by (simp add: isnan_def binary64_of_int_def)

lemma isnan_binary32:
  "n div 2 ^ 23 mod 256 = 255 \<Longrightarrow> n mod 2 ^ 23 \<noteq> 0 \<Longrightarrow> isnan (binary32_of_int n)"
  by (simp add: isnan_def binary32_of_int_def widen_def)

text \<open>
  Claim C3. For both widths, building a float that is a NaN raises ValueError, and parsing
  bytes that are a NaN pattern of the width raises ValueError: no value is returned.
\<close>

theorem C3_nan_rejected:
  "(isnan x \<longrightarrow> FormatFieldNoNan_build F32 x = Inl ValueError \<and>
                 FormatFieldNoNan_build F64 x = Inl ValueError) \<and>
   (nan_pattern F32 data32 \<longrightarrow> FormatFieldNoNan_parse F32 (data32 @ rest) = Inl ValueError) \<and>
   (nan_pattern F64 data64 \<longrightarrow> FormatFieldNoNan_parse F64 (data64 @ rest) = Inl ValueError)"
  by (simp add: FormatFieldNoNan_build_def FormatFieldNoNan_parse_def F32_def F64_def
      stream_read_def isnan_binary64 isnan_binary32)

text \<open>A quiet NaN, and its usual patterns \<open>7FC00000\<close> and \<open>7FF8000000000000\<close> (little-endian).\<close>

theorem C3_nan_rejected_witness:
  "isnan (PyFloat False 2047 (2 ^ 51)) \<and>
   FormatFieldNoNan_build F32 (PyFloat False 2047 (2 ^ 51)) = Inl ValueError \<and>
   FormatFieldNoNan_build F64 (PyFloat False 2047 (2 ^ 51)) = Inl ValueError \<and>
   nan_pattern F32 [0x00, 0x00, 0xC0, 0x7F] \<and>
   FormatFieldNoNan_parse F32 [0x00, 0x00, 0xC0, 0x7F] = Inl ValueError \<and>
   nan_pattern F64 [0x00, 0x00, 0x00, 0x00, 0x00, 0x00, 0xF8, 0x7F] \<and>
   FormatFieldNoNan_parse F64 [0x00, 0x00, 0x00, 0x00, 0x00, 0x00, 0xF8, 0x7F] = Inl ValueError"
proof -
  have n: "isnan (PyFloat False 2047 (2 ^ 51))"
    by (simp add: isnan_def)
  have p32: "nan_pattern F32 [0x00, 0x00, 0xC0, 0x7F]"
    by (simp add: F32_def)
  have p64: "nan_pattern F64 [0x00, 0x00, 0x00, 0x00, 0x00, 0x00, 0xF8, 0x7F]"
    by (simp add: F64_def)
  show ?thesis
    using n p32 p64
      C3_nan_rejected [of "PyFloat False 2047 (2 ^ 51)" "[0x00, 0x00, 0xC0, 0x7F]" "[]"
        "[0x00, 0x00, 0x00, 0x00, 0x00, 0x00, 0xF8, 0x7F]"]
    by simp
qed

subsection \<open>Names checked when an Enum is built\<close>










subsection \<open>The discriminant of an Enum on encode\<close>

text \<open>
  Claim C6 asks of every union that encode writes the place of the variant in the
  declaration and then its payload. \<^verbatim>\<open>Enum._build\<close> reads the place as \<^verbatim>\<open>obj.index\<close>, which
  \<^verbatim>\<open>rust_enum\<close> has set on the class of the constructor, and no check keeps a field from
  being named \<^verbatim>\<open>index\<close>. For \<^verbatim>\<open>Enum("A", "B" / CStruct("index" / U8))\<close> the bytes \<open>[0x01, 0x00]\<close>
  decode to \<^verbatim>\<open>B(index=0)\<close>, the instance of the variant at place 1 whose field is 0. Encoding
  it takes the field for the discriminant: the builder is that of variant 0, the unit
  variant \<^verbatim>\<open>"A"\<close>, a \<^verbatim>\<open>str\<close> that has no \<^verbatim>\<open>_build\<close> (AttributeError), where the claim asks for
  \<open>[0x01, 0x00]\<close>. With the field 1 the same value happens to encode. With the field named
  \<^verbatim>\<open>x\<close> the encoding is the one the claim asks for, and so are the encoding of a tuple
  variant (its place, then the items of \<^verbatim>\<open>tuple_data\<close>) and the single byte \<open>0x01\<close> of the
  unit variant at place 1 of a union of three.
\<close>

theorem C6_field_named_index_taken_for_discriminant:
  "Enum_init [VariantName ''A'', VariantSubcon (Renamed ''B'' (CStruct [Renamed ''index'' U8]))] =
     Inr (Enum [(''A'', []), (''B'', [''index''])]
            [VariantName ''A'', VariantSubcon (Renamed ''B'' (CStruct [Renamed ''index'' U8]))]) \<and>
   parse (Enum [(''A'', []), (''B'', [''index''])]
            [VariantName ''A'', VariantSubcon (Renamed ''B'' (CStruct [Renamed ''index'' U8]))])
     [0x01, 0x00] = Inr (VVariant 1 ''B'' [(''index'', VInt 0)]) \<and>
   build (Enum [(''A'', []), (''B'', [''index''])]
            [VariantName ''A'', VariantSubcon (Renamed ''B'' (CStruct [Renamed ''index'' U8]))])
     (VVariant 1 ''B'' [(''index'', VInt 0)]) = Inl AttributeError \<and>
   build (Enum [(''A'', []), (''B'', [''index''])]
            [VariantName ''A'', VariantSubcon (Renamed ''B'' (CStruct [Renamed ''index'' U8]))])
     (VVariant 1 ''B'' [(''index'', VInt 1)]) = Inr [0x01, 0x01] \<and>
   Enum_init [VariantName ''A'', VariantSubcon (Renamed ''B'' (CStruct [Renamed ''x'' U8]))] =
     Inr (Enum [(''A'', []), (''B'', [''x''])]
            [VariantName ''A'', VariantSubcon (Renamed ''B'' (CStruct [Renamed ''x'' U8]))]) \<and>
   build (Enum [(''A'', []), (''B'', [''x''])]
            [VariantName ''A'', VariantSubcon (Renamed ''B'' (CStruct [Renamed ''x'' U8]))])
     (VVariant 1 ''B'' [(''x'', VInt 0)]) = Inr [0x01, 0x00] \<and>
   Enum_init [VariantName ''A'', VariantSubcon (Renamed ''T'' (TupleStruct [U8, U16]))] =
     Inr (Enum [(''A'', []), (''T'', [''tuple_data''])]
            [VariantName ''A'', VariantSubcon (Renamed ''T'' (TupleStruct [U8, U16]))]) \<and>
   build (Enum [(''A'', []), (''T'', [''tuple_data''])]
            [VariantName ''A'', VariantSubcon (Renamed ''T'' (TupleStruct [U8, U16]))])
     (VVariant 1 ''T'' [(''tuple_data'', VTuple [VInt 5, VInt 6])]) = Inr [0x01, 0x05, 0x06, 0x00] \<and>
   Enum_init [VariantName ''A'', VariantName ''B'', VariantSubcon (Renamed ''C'' (CStruct [Renamed ''x'' U8]))] =
     Inr (Enum [(''A'', []), (''B'', []), (''C'', [''x''])]
            [VariantName ''A'', VariantName ''B'', VariantSubcon (Renamed ''C'' (CStruct [Renamed ''x'' U8]))]) \<and>
   build (Enum [(''A'', []), (''B'', []), (''C'', [''x''])]
            [VariantName ''A'', VariantName ''B'', VariantSubcon (Renamed ''C'' (CStruct [Renamed ''x'' U8]))])
     (VVariant 1 ''B'' []) = Inr [0x01]"
  by code_simp

subsection \<open>The accounts coder\<close>

text \<open>
  When the accounts of the IDL have distinct names and distinct discriminators, the four
  dicts of the coder list the accounts in their order.
\<close>

lemma dict_put_fresh: "k \<notin> fst ` set d \<Longrightarrow> dict_put d k v = d @ [(k, v)]"
  by (induction d) auto

lemma dict_comp_distinct:
  "distinct (map fst d @ map key xs) \<Longrightarrow> (\<And>x. x \<in> set xs \<Longrightarrow> val x = Inr (g x)) \<Longrightarrow>
   dict_comp key val d xs = Inr (d @ map (\<lambda>x. (key x, g x)) xs)"
proof (induction xs arbitrary: d)
  case Nil
  then show ?case by simp
next
  case (Cons x xs)
  from Cons.prems(1) have fresh: "key x \<notin> fst ` set d" by auto
  from Cons.prems(1) have d: "distinct (map fst (d @ [(key x, g x)]) @ map key xs)" by auto
  have v: "val x = Inr (g x)" using Cons.prems(2) by simp
  from Cons.IH [OF d] Cons.prems(2)
  have "dict_comp key val (d @ [(key x, g x)]) xs = Inr ((d @ [(key x, g x)]) @ map (\<lambda>x. (key x, g x)) xs)"
    by simp
  then show ?case
    by (simp add: v dict_put_fresh [OF fresh])
qed

lemma map_of_keyed:
  "distinct (map key xs) \<Longrightarrow> x \<in> set xs \<Longrightarrow> map_of (map (\<lambda>x. (key x, g x)) xs) (key x) = Some (g x)"
  by (induction xs) (auto simp: rev_image_eqI)

lemma AccountsCoder_init_distinct:
  assumes names: "distinct (map fst accounts)"
    and inj: "inj_on (account_discriminator sha256) (fst ` set accounts)"
  shows "AccountsCoder_init sha256 accounts =
     Inr \<lparr>accounts_layout = accounts,
          acc_name_to_discriminator = map (\<lambda>acc. (fst acc, account_discriminator sha256 (fst acc))) accounts,
          discriminator_to_acc_name = map (\<lambda>acc. (account_discriminator sha256 (fst acc), fst acc)) accounts,
          discriminator_to_typedef_layout = map (\<lambda>acc. (account_discriminator sha256 (fst acc), snd acc)) accounts\<rparr>"
proof -
  let ?disc = "account_discriminator sha256"
  let ?n2d = "map (\<lambda>acc. (fst acc, ?disc (fst acc))) accounts"
  have l: "dict_comp fst (\<lambda>acc. Inr (snd acc)) [] accounts = Inr accounts"
    using dict_comp_distinct [of "[]" fst accounts "\<lambda>acc. Inr (snd acc)" snd] names by simp
  have n: "dict_comp fst (\<lambda>acc. Inr (?disc (fst acc))) [] accounts = Inr ?n2d"
    using dict_comp_distinct [of "[]" fst accounts "\<lambda>acc. Inr (?disc (fst acc))" "\<lambda>acc. ?disc (fst acc)"] names
    by simp
  have dd: "distinct (map snd ?n2d)"
    using names inj by (simp add: distinct_map comp_def inj_on_def)
  have d2n: "dict_comp snd (\<lambda>item. Inr (fst item)) [] ?n2d = Inr (map (\<lambda>item. (snd item, fst item)) ?n2d)"
    using dict_comp_distinct [of "[]" snd ?n2d "\<lambda>item. Inr (fst item)" fst] dd by simp
  have lk: "lookup accounts (fst item) = Inr (the (map_of accounts (fst item)))" if "item \<in> set ?n2d" for item
  proof -
    from that obtain acc where "acc \<in> set accounts" and "fst item = fst acc" by auto
    then have "map_of accounts (fst item) = Some (snd acc)"
      using names by simp
    then show ?thesis by (simp add: lookup_def)
  qed
  have d2l: "dict_comp snd (\<lambda>item. lookup accounts (fst item)) [] ?n2d =
      Inr (map (\<lambda>item. (snd item, the (map_of accounts (fst item)))) ?n2d)"
    using dict_comp_distinct [of "[]" snd ?n2d "\<lambda>item. lookup accounts (fst item)"
        "\<lambda>item. the (map_of accounts (fst item))"] dd lk by simp
  have t: "map (\<lambda>item. (snd item, the (map_of accounts (fst item)))) ?n2d =
      map (\<lambda>acc. (?disc (fst acc), snd acc)) accounts"
  proof -
    have "the (map_of accounts (fst x)) = snd x" if "x \<in> set accounts" for x
    proof -
      from that names have "map_of accounts (fst x) = Some (snd x)" by simp
      then show ?thesis by simp
    qed
    then show ?thesis by (simp add: comp_def)
  qed
  have m: "map (\<lambda>item. (snd item, fst item)) ?n2d = map (\<lambda>acc. (?disc (fst acc), fst acc)) accounts"
    by (simp add: comp_def)
  show ?thesis
    by (simp only: AccountsCoder_init_def l n d2n d2l t m bind_Inr)
qed

text \<open>
  Claim C10. Let the accounts of the IDL have pairwise distinct names and pairwise
  distinct discriminators, and let the digest be 32 bytes long (as SHA-256's is). For
  every declared account, with its layout: the coder is built; its discriminator for the
  name is the first 8 bytes of the digest of \<^verbatim>\<open>"account:" + name\<close>, and is 8 bytes long;
  \<^verbatim>\<open>build\<close> gives that discriminator followed by the payload as the layout of the account
  builds it (and fails where the layout does); \<^verbatim>\<open>parse\<close> of that discriminator followed
  by any bytes gives the name of the account and the value the layout of the account
  parses from the bytes (and fails where the layout does).
\<close>

theorem C10_accounts_coder_discriminator:
  assumes names: "distinct (map fst accounts)"
    and inj: "inj_on (account_discriminator sha256) (fst ` set accounts)"
    and digest: "\<forall>x. length (sha256 x) = 32"
    and acc: "(name, layout) \<in> set accounts"
  shows "\<exists>coder. AccountsCoder_init sha256 accounts = Inr coder \<and>
    lookup (acc_name_to_discriminator coder) name =
      Inr (take 8 (sha256 (map byte_of_char (''account:'' @ name)))) \<and>
    length (account_discriminator sha256 name) = 8 \<and>
    (\<forall>data. AccountsCoder_build coder (name, data) =
       bind (c_build layout data) (\<lambda>payload. Inr (account_discriminator sha256 name @ payload))) \<and>
    (\<forall>stream. AccountsCoder_parse coder (account_discriminator sha256 name @ stream) =
       bind (c_parse layout stream) (\<lambda>(data, rest). Inr ((name, data), rest)))"
proof -
  let ?disc = "account_discriminator sha256"
  let ?coder = "\<lparr>accounts_layout = accounts,
          acc_name_to_discriminator = map (\<lambda>acc. (fst acc, ?disc (fst acc))) accounts,
          discriminator_to_acc_name = map (\<lambda>acc. (?disc (fst acc), fst acc)) accounts,
          discriminator_to_typedef_layout = map (\<lambda>acc. (?disc (fst acc), snd acc)) accounts\<rparr>"
  have init: "AccountsCoder_init sha256 accounts = Inr ?coder"
    using names inj by (rule AccountsCoder_init_distinct)
  have dd: "distinct (map (\<lambda>acc. ?disc (fst acc)) accounts)"
    using names inj by (simp add: distinct_map comp_def inj_on_def)
  have len: "length (?disc name) = 8"
    using digest by (simp add: account_discriminator_def)
  have n2d: "map_of (map (\<lambda>acc. (fst acc, ?disc (fst acc))) accounts) name = Some (?disc name)"
    using map_of_keyed [of fst accounts "(name, layout)" "\<lambda>acc. ?disc (fst acc)"] names acc by simp
  have d2l: "map_of (map (\<lambda>acc. (?disc (fst acc), snd acc)) accounts) (?disc name) = Some layout"
    using map_of_keyed [of "\<lambda>acc. ?disc (fst acc)" accounts "(name, layout)" snd] dd acc by simp
  have d2n: "map_of (map (\<lambda>acc. (?disc (fst acc), fst acc)) accounts) (?disc name) = Some name"
    using map_of_keyed [of "\<lambda>acc. ?disc (fst acc)" accounts "(name, layout)" fst] dd acc by simp
  have a: "lookup (acc_name_to_discriminator ?coder) name =
      Inr (take 8 (sha256 (map byte_of_char (''account:'' @ name))))"
    using n2d by (simp add: lookup_def account_discriminator_def)
  have b: "AccountsCoder_build ?coder (name, data) =
       bind (c_build layout data) (\<lambda>payload. Inr (?disc name @ payload))" for data
    using n2d d2l len
    by (simp add: AccountsCoder_build_def AccountsCoder_encode_def lookup_def
        ACCOUNT_DISCRIMINATOR_SIZE_def)
  have c: "AccountsCoder_parse ?coder (?disc name @ stream) =
       bind (c_parse layout stream) (\<lambda>(data, rest). Inr ((name, data), rest))" for stream
  proof -
    have r: "stream_read (?disc name @ stream) 8 = Inr (?disc name, stream)"
      using len by (simp add: stream_read_def)
    show ?thesis
      using d2l d2n
      by (cases "c_parse layout stream")
        (auto simp: AccountsCoder_parse_def AccountsCoder_decode_def lookup_def
          ACCOUNT_DISCRIMINATOR_SIZE_def r)
  qed
  from init a len b c show ?thesis by blast
qed

text \<open>
  Two accounts \<^verbatim>\<open>A\<close> (layout \<open>U8\<close>) and \<^verbatim>\<open>B\<close> (layout \<open>U16\<close>), with a stand-in for the
  digest: the input reversed and padded with zeros to 32 bytes, so that the
  discriminator of \<^verbatim>\<open>A\<close> is \<^verbatim>\<open>"A:tnuocc"\<close>.
\<close>

theorem C10_accounts_coder_discriminator_witness:
  "\<exists>coder. AccountsCoder_init (\<lambda>bs. take 32 (rev bs) @ replicate (32 - length bs) 0) [(''A'', U8), (''B'', U16)] = Inr coder \<and>
     AccountsCoder_build coder (''A'', VInt 7) =
       Inr [0x41, 0x3A, 0x74, 0x6E, 0x75, 0x6F, 0x63, 0x63, 0x07] \<and>
     AccountsCoder_parse coder [0x41, 0x3A, 0x74, 0x6E, 0x75, 0x6F, 0x63, 0x63, 0x07] =
       Inr ((''A'', VInt 7), [])"
proof -
  let ?H = "\<lambda>bs :: byte list. take 32 (rev bs) @ replicate (32 - length bs) 0"
  let ?accs = "[(''A'', U8), (''B'', U16)]"
  have dA: "account_discriminator ?H ''A'' = [0x41, 0x3A, 0x74, 0x6E, 0x75, 0x6F, 0x63, 0x63]"
    by (simp add: account_discriminator_def byte_of_char_def)
  have dB: "account_discriminator ?H ''B'' = [0x42, 0x3A, 0x74, 0x6E, 0x75, 0x6F, 0x63, 0x63]"
    by (simp add: account_discriminator_def byte_of_char_def)
  have names: "distinct (map fst ?accs)" by simp
  have inj: "inj_on (account_discriminator ?H) (fst ` set ?accs)"
    by (simp add: dA dB)
  have digest: "\<forall>x. length (?H x) = 32" by (simp add: min_def)
  have acc: "(''A'', U8) \<in> set ?accs" by simp
  from C10_accounts_coder_discriminator [OF names inj digest acc]
  obtain coder where init: "AccountsCoder_init ?H ?accs = Inr coder"
    and b: "AccountsCoder_build coder (''A'', VInt 7) =
       bind (c_build U8 (VInt 7)) (\<lambda>payload. Inr (account_discriminator ?H ''A'' @ payload))"
    and p: "AccountsCoder_parse coder (account_discriminator ?H ''A'' @ [0x07]) =
       bind (c_parse U8 [0x07]) (\<lambda>(data, rest). Inr ((''A'', data), rest))"
    by blast
  have b': "AccountsCoder_build coder (''A'', VInt 7) = Inr [0x41, 0x3A, 0x74, 0x6E, 0x75, 0x6F, 0x63, 0x63, 0x07]"
    unfolding b dA
    by (simp add: FormatField_build_def as_int_def int_in_range_def int_to_le_def)
  have p': "AccountsCoder_parse coder [0x41, 0x3A, 0x74, 0x6E, 0x75, 0x6F, 0x63, 0x63, 0x07] = Inr ((''A'', VInt 7), [])"
    using p unfolding dA
    by (simp add: FormatField_parse_def stream_read_def int_of_le_def)
  from init b' p' show ?thesis by blast
qed

subsection \<open>The order of the entries of a map and of a set\<close>

lemma le_bytes_numeral [simp]:
  "le_bytes (numeral k) x = of_int (x mod 256) # le_bytes (pred_numeral k) (x div 256)"
  by (simp add: numeral_eq_Suc)

lemma py_total_distinct: "py_total xs \<Longrightarrow> distinct xs"
  by (simp add: py_total_def)

lemma py_total_ordered:
  "py_total xs \<Longrightarrow> a \<in> set xs \<Longrightarrow> b \<in> set xs \<Longrightarrow> a \<noteq> b \<Longrightarrow>
   \<not> py_eq a b \<and> (py_lt a b = Some True \<and> py_lt b a = Some False \<or>
                  py_lt a b = Some False \<and> py_lt b a = Some True)"
  unfolding py_total_def by (elim conjE) (drule (1) bspec, drule (1) bspec, drule (1) mp, assumption)

lemma py_total_trans:
  "py_total xs \<Longrightarrow> a \<in> set xs \<Longrightarrow> b \<in> set xs \<Longrightarrow> c \<in> set xs \<Longrightarrow>
   py_lt a b = Some True \<Longrightarrow> py_lt b c = Some True \<Longrightarrow> py_lt a c = Some True"
  unfolding py_total_def
  by (elim conjE) (drule (1) bspec, drule (1) bspec, drule (1) bspec, drule (1) mp, drule (1) mp, assumption)

lemma py_totalI:
  assumes "distinct xs"
    and "\<And>a b. a \<in> set xs \<Longrightarrow> b \<in> set xs \<Longrightarrow> a \<noteq> b \<Longrightarrow>
       \<not> py_eq a b \<and> (py_lt a b = Some True \<and> py_lt b a = Some False \<or>
                      py_lt a b = Some False \<and> py_lt b a = Some True)"
    and "\<And>a b c. a \<in> set xs \<Longrightarrow> b \<in> set xs \<Longrightarrow> c \<in> set xs \<Longrightarrow>
       py_lt a b = Some True \<Longrightarrow> py_lt b c = Some True \<Longrightarrow> py_lt a c = Some True"
  shows "py_total xs"
  unfolding py_total_def
proof (intro conjI ballI impI)
  show "distinct xs" by (rule assms(1))
next
  fix a b assume "a \<in> set xs" "b \<in> set xs" "a \<noteq> b"
  from assms(2) [OF this] show "\<not> py_eq a b" by simp
  from assms(2) [OF \<open>a \<in> set xs\<close> \<open>b \<in> set xs\<close> \<open>a \<noteq> b\<close>]
  show "py_lt a b = Some True \<and> py_lt b a = Some False \<or> py_lt a b = Some False \<and> py_lt b a = Some True"
    by simp
next
  fix a b c assume "a \<in> set xs" "b \<in> set xs" "c \<in> set xs" "py_lt a b = Some True" "py_lt b c = Some True"
  then show "py_lt a c = Some True" by (rule assms(3))
qed

lemma py_total_subset:
  assumes t: "py_total xs" and sub: "set ys \<subseteq> set xs" and d: "distinct ys"
  shows "py_total ys"
  unfolding py_total_def
proof (intro conjI ballI impI)
  show "distinct ys" by (rule d)
next
  fix a b assume "a \<in> set ys" "b \<in> set ys" "a \<noteq> b"
  with sub have ab: "a \<in> set xs" "b \<in> set xs" "a \<noteq> b" by auto
  from py_total_ordered [OF t ab] show "\<not> py_eq a b" by simp
  from py_total_ordered [OF t ab]
  show "py_lt a b = Some True \<and> py_lt b a = Some False \<or> py_lt a b = Some False \<and> py_lt b a = Some True"
    by simp
next
  fix a b c assume "a \<in> set ys" "b \<in> set ys" "c \<in> set ys"
    and l: "py_lt a b = Some True" "py_lt b c = Some True"
  with sub have "a \<in> set xs" "b \<in> set xs" "c \<in> set xs" by auto
  from py_total_trans [OF t this l] show "py_lt a c = Some True" .
qed

lemma py_total_Cons: "py_total (x # xs) \<Longrightarrow> py_total xs"
  by (rule py_total_subset [of "x # xs"]) (auto dest: py_total_distinct)

lemma py_insort_total:
  assumes "py_total (x # ys)" and "sorted_wrt (\<lambda>a b. py_lt a b = Some True) ys"
  shows "\<exists>zs. py_insort x ys = Inr zs \<and> mset zs = mset (x # ys) \<and>
              sorted_wrt (\<lambda>a b. py_lt a b = Some True) zs"
  using assms
proof (induction ys)
  case Nil
  then show ?case by simp
next
  case (Cons y ys)
  let ?lt = "\<lambda>a b. py_lt a b = Some True"
  note t = Cons.prems(1)
  from py_total_distinct [OF t] have neq: "y \<noteq> x" by auto
  from py_total_ordered [OF t _ _ neq]
  have ord: "py_lt y x = Some True \<and> py_lt x y = Some False \<or>
      py_lt y x = Some False \<and> py_lt x y = Some True"
    by simp
  from Cons.prems(2) have ys: "sorted_wrt ?lt ys" and y_lt: "\<forall>z \<in> set ys. ?lt y z"
    by simp_all
  show ?case
  proof (cases "py_lt y x = Some True")
    case True
    have tot: "py_total (x # ys)"
      by (rule py_total_subset [OF t]) (use py_total_distinct [OF t] in auto)
    from Cons.IH [OF tot ys] obtain zs where zs: "py_insort x ys = Inr zs"
      "mset zs = mset (x # ys)" "sorted_wrt ?lt zs"
      by blast
    from zs(2) have "set zs = set (x # ys)" by (metis set_mset_mset)
    with True y_lt have "\<forall>z \<in> set zs. ?lt y z" by auto
    with zs True show ?thesis by simp
  next
    case False
    with ord have f: "py_lt y x = Some False" and xy: "?lt x y" by auto
    have "\<forall>z \<in> set ys. ?lt x z"
    proof
      fix z assume z: "z \<in> set ys"
      with y_lt have "?lt y z" by simp
      from py_total_trans [OF t _ _ _ xy this] z show "?lt x z" by simp
    qed
    with xy Cons.prems(2) f show ?thesis by simp
  qed
qed

lemma py_sorted_total:
  "py_total xs \<Longrightarrow> \<exists>ys. py_sorted xs = Inr ys \<and> mset ys = mset xs \<and>
     sorted_wrt (\<lambda>a b. py_lt a b = Some True) ys"
proof (induction xs)
  case Nil
  then show ?case by simp
next
  case (Cons x xs)
  from Cons.IH [OF py_total_Cons [OF Cons.prems]] obtain ys where ys: "py_sorted xs = Inr ys"
    "mset ys = mset xs" "sorted_wrt (\<lambda>a b. py_lt a b = Some True) ys"
    by blast
  from ys(2) have s: "set ys = set xs" by (metis set_mset_mset)
  from ys(2) have dd: "distinct ys = distinct xs" by (metis mset_eq_imp_distinct_iff)
  have "py_total (x # ys)"
    by (rule py_total_subset [OF Cons.prems]) (use s dd py_total_distinct [OF Cons.prems] in auto)
  from py_insort_total [OF this ys(3)] ys show ?case
    by auto
qed

lemma sorted_wrt_unique:
  assumes "sorted_wrt lt ys" and "sorted_wrt lt zs" and "mset ys = mset zs"
    and "\<And>a b. a \<in> set ys \<Longrightarrow> b \<in> set ys \<Longrightarrow> a \<noteq> b \<Longrightarrow> lt a b \<Longrightarrow> \<not> lt b a"
  shows "ys = zs"
  using assms
proof (induction ys arbitrary: zs)
  case Nil
  then show ?case by simp
next
  case (Cons y ys)
  from Cons.prems(3) obtain z zs' where zs: "zs = z # zs'"
    by (cases zs) auto
  have sets: "set (y # ys) = set (z # zs')"
    using Cons.prems(3) zs by (metis set_mset_mset)
  have "y = z"
  proof (rule ccontr)
    assume ne: "y \<noteq> z"
    with sets have "z \<in> set ys" and "y \<in> set zs'" by auto
    with Cons.prems(1,2) zs have "lt y z" and "lt z y" by auto
    with Cons.prems(4) [of y z] \<open>z \<in> set ys\<close> ne show False by simp
  qed
  with Cons.prems(3) zs have m: "mset ys = mset zs'" by simp
  from Cons.prems(1,2) zs have "sorted_wrt lt ys" "sorted_wrt lt zs'" by simp_all
  from Cons.IH [OF this m] Cons.prems(4) have "ys = zs'" by simp
  with \<open>y = z\<close> zs show ?case by simp
qed

lemma py_total_mset: "py_total xs \<Longrightarrow> mset xs' = mset xs \<Longrightarrow> py_total xs'"
proof -
  assume t: "py_total xs" and m: "mset xs' = mset xs"
  from m have "set xs' = set xs" by (metis set_mset_mset)
  moreover from m have "distinct xs' = distinct xs"
    by (metis mset_eq_imp_distinct_iff)
  ultimately show ?thesis using py_total_subset [OF t, of xs'] py_total_distinct [OF t] by simp
qed

lemma py_sorted_permutation:
  assumes "py_total xs" and "mset xs' = mset xs"
  shows "py_sorted xs' = py_sorted xs"
proof -
  let ?lt = "\<lambda>a b. py_lt a b = Some True"
  from py_sorted_total [OF assms(1)] obtain ys where ys: "py_sorted xs = Inr ys"
    "mset ys = mset xs" "sorted_wrt ?lt ys" by blast
  from py_sorted_total [OF py_total_mset [OF assms]] obtain zs where zs: "py_sorted xs' = Inr zs"
    "mset zs = mset xs'" "sorted_wrt ?lt zs" by blast
  have "set ys = set xs" using ys(2) by (metis set_mset_mset)
  then have asym: "\<not> ?lt b a" if "a \<in> set ys" "b \<in> set ys" "a \<noteq> b" "?lt a b" for a b
    using py_total_ordered [OF assms(1), of a b] that by auto
  have "ys = zs"
    using ys(3) zs(3) _ asym
  proof (rule sorted_wrt_unique)
    show "mset ys = mset zs" using ys(2) zs(2) assms(2) by simp
  qed
  with ys zs show ?thesis by simp
qed


lemma build_all_replicate:
  "build_all b (zip (replicate (length ys) c) (map Inr ys)) = Inr data \<longleftrightarrow>
   (\<exists>encs. list_all2 (\<lambda>y enc. b c y = Inr enc) ys encs \<and> data = concat encs)"
proof (induction ys arbitrary: data)
  case Nil
  then show ?case by auto
next
  case (Cons y ys)
  show ?case
  proof
    assume "build_all b (zip (replicate (length (y # ys)) c) (map Inr (y # ys))) = Inr data"
    then obtain e d where e: "b c y = Inr e"
      and d: "build_all b (zip (replicate (length ys) c) (map Inr ys)) = Inr d" and "data = e @ d"
      by (auto simp: bind_eq_Inr)
    from d Cons.IH obtain encs where "list_all2 (\<lambda>y enc. b c y = Inr enc) ys encs" "d = concat encs"
      by blast
    with e \<open>data = e @ d\<close> have "list_all2 (\<lambda>y enc. b c y = Inr enc) (y # ys) (e # encs) \<and> data = concat (e # encs)"
      by simp
    then show "\<exists>encs. list_all2 (\<lambda>y enc. b c y = Inr enc) (y # ys) encs \<and> data = concat encs"
      by blast
  next
    assume "\<exists>encs. list_all2 (\<lambda>y enc. b c y = Inr enc) (y # ys) encs \<and> data = concat encs"
    then obtain e encs where e: "b c y = Inr e" and l: "list_all2 (\<lambda>y enc. b c y = Inr enc) ys encs"
      and data: "data = e @ concat encs"
      by (auto simp: list_all2_Cons1)
    from l Cons.IH [of "concat encs"]
    have "build_all b (zip (replicate (length ys) c) (map Inr ys)) = Inr (concat encs)"
      by blast
    with e data show "build_all b (zip (replicate (length (y # ys)) c) (map Inr (y # ys))) = Inr data"
      by simp
  qed
qed

lemma PrefixedArray_build_list:
  "c_build (PrefixedArray T) (VList ys) = Inr out \<Longrightarrow>
   \<exists>encs. list_all2 (\<lambda>y enc. build T y = Inr enc) ys encs \<and>
          out = int_to_le 4 (int (length ys)) @ concat encs"
proof -
  assume a: "c_build (PrefixedArray T) (VList ys) = Inr out"
  then obtain cnt data where c: "FormatField_build 4 False (VInt (int (length ys))) = Inr cnt"
    and d: "build_all c_build (zip (replicate (length ys) T) (map Inr ys)) = Inr data"
    and o: "out = cnt @ data"
    by (auto simp: bind_eq_Inr)
  from c have "cnt = int_to_le 4 (int (length ys))"
    by (auto simp: FormatField_build_def as_int_def split: if_splits)
  moreover from d obtain encs where "list_all2 (\<lambda>y enc. c_build T y = Inr enc) ys encs" "data = concat encs"
    using build_all_replicate [of c_build ys T data] by blast
  ultimately show ?thesis using o by (auto simp: build_def)
qed

lemma HashSet_build:
  "build (HashSet T) (VSet xs) = bind (py_sorted xs) (\<lambda>ys. c_build (PrefixedArray T) (VList ys))"
  by (simp add: build_def HashSet_def)

lemma HashMap_build:
  "build (HashMap K V) (VDict kvs) =
     bind (py_sorted (map (\<lambda>kv. VTuple [fst kv, snd kv]) kvs))
       (\<lambda>items. c_build (PrefixedArray (TupleStruct [K, V])) (VList items))"
  by (simp add: build_def HashMap_def)

lemma py_total_items:
  assumes t: "py_total (map fst kvs)"
  shows "py_total (map (\<lambda>kv. VTuple [fst kv, snd kv]) kvs)"
proof -
  let ?tup = "\<lambda>kv :: val \<times> val. VTuple [fst kv, snd kv]"
  let ?lt = "\<lambda>a b. py_lt a b = Some True"
  have dk: "distinct (map fst kvs)" using t by (rule py_total_distinct)
  have keys: "fst p \<noteq> fst q" if "p \<in> set kvs" "q \<in> set kvs" "p \<noteq> q" for p q
    using dk that by (meson distinct_map inj_onD)
  have rel: "\<not> py_eq (?tup p) (?tup q) \<and> py_lt (?tup p) (?tup q) = py_lt (fst p) (fst q)"
    if "p \<in> set kvs" "q \<in> set kvs" "p \<noteq> q" for p q
  proof -
    from keys [OF that] have "fst p \<noteq> fst q" .
    with py_total_ordered [OF t, of "fst p" "fst q"] that have "\<not> py_eq (fst p) (fst q)" by simp
    then show ?thesis by simp
  qed
  show ?thesis
  proof (rule py_totalI)
    have "distinct kvs" using dk by (simp add: distinct_map)
    moreover have "inj_on ?tup (set kvs)"
      by (rule inj_onI) (simp add: prod_eq_iff)
    ultimately show "distinct (map ?tup kvs)"
      by (simp add: distinct_map)
  next
    fix a b assume a: "a \<in> set (map ?tup kvs)" and b: "b \<in> set (map ?tup kvs)" and ne: "a \<noteq> b"
    then obtain p q where p: "p \<in> set kvs" "a = ?tup p" and q: "q \<in> set kvs" "b = ?tup q" by auto
    with ne have pq: "p \<noteq> q" by auto
    from keys [OF p(1) q(1) pq] have kne: "fst p \<noteq> fst q" .
    from py_total_ordered [OF t _ _ kne] p(1) q(1)
    have "py_lt (fst p) (fst q) = Some True \<and> py_lt (fst q) (fst p) = Some False \<or>
          py_lt (fst p) (fst q) = Some False \<and> py_lt (fst q) (fst p) = Some True"
      by simp
    with rel [OF p(1) q(1) pq] rel [OF q(1) p(1) pq [symmetric]] p(2) q(2)
    show "\<not> py_eq a b \<and> (py_lt a b = Some True \<and> py_lt b a = Some False \<or>
        py_lt a b = Some False \<and> py_lt b a = Some True)"
      by (simp only:) simp
  next
    fix a b c assume a: "a \<in> set (map ?tup kvs)" and b: "b \<in> set (map ?tup kvs)"
      and c: "c \<in> set (map ?tup kvs)" and ab: "?lt a b" and bc: "?lt b c"
    then obtain p q r where p: "p \<in> set kvs" "a = ?tup p" and q: "q \<in> set kvs" "b = ?tup q"
      and r: "r \<in> set kvs" "c = ?tup r" by auto
    show "?lt a c"
    proof (cases "p = q \<or> q = r")
      case True
      with ab bc p q r show ?thesis by auto
    next
      case False
      then have pq: "p \<noteq> q" and qr: "q \<noteq> r" by simp_all
      from ab rel [OF p(1) q(1) pq] p q have kab: "?lt (fst p) (fst q)" by simp
      from bc rel [OF q(1) r(1) qr] q r have kbc: "?lt (fst q) (fst r)" by simp
      have pr: "p \<noteq> r"
      proof
        assume "p = r"
        with kab kbc py_total_ordered [OF t _ _ keys [OF p(1) q(1) pq]] p(1) q(1)
        show False by simp
      qed
      from py_total_trans [OF t _ _ _ kab kbc] p(1) q(1) r(1) have "?lt (fst p) (fst r)" by simp
      with rel [OF p(1) r(1) pr] p r show ?thesis by simp
    qed
  qed
qed

lemma items_of_mset:
  assumes "mset ys = mset (map (\<lambda>kv. VTuple [fst kv, snd kv]) kvs)"
  shows "\<exists>skvs. ys = map (\<lambda>kv. VTuple [fst kv, snd kv]) skvs \<and> mset skvs = mset kvs"
proof -
  let ?tup = "\<lambda>kv :: val \<times> val. VTuple [fst kv, snd kv]"
  let ?un = "\<lambda>v. case v of VTuple [k, x] \<Rightarrow> (k, x) | _ \<Rightarrow> (VNone, VNone)"
  have inv: "?un (?tup kv) = kv" for kv by simp
  from assms have "set ys = set (map ?tup kvs)" by (metis set_mset_mset)
  then have "\<forall>y \<in> set ys. ?tup (?un y) = y" by auto
  then have a: "ys = map ?tup (map ?un ys)" by (simp add: map_idI)
  have "mset (map ?un ys) = image_mset ?un (mset ys)" by simp
  also have "\<dots> = image_mset ?un (image_mset ?tup (mset kvs))" using assms by simp
  also have "\<dots> = mset kvs" by (simp add: multiset.map_comp comp_def)
  finally show ?thesis using a by blast
qed

lemma sorted_items_keys:
  assumes t: "py_total (map fst skvs)"
    and s: "sorted_wrt (\<lambda>a b. py_lt a b = Some True) (map (\<lambda>kv. VTuple [fst kv, snd kv]) skvs)"
  shows "sorted_wrt (\<lambda>a b. py_lt (fst a) (fst b) = Some True) skvs"
  using assms
proof (induction skvs)
  case Nil
  then show ?case by simp
next
  case (Cons p ps)
  have t': "py_total (map fst ps)"
    using py_total_Cons [of "fst p" "map fst ps"] Cons.prems(1) by simp
  have "py_lt (fst p) (fst q) = Some True" if q: "q \<in> set ps" for q
  proof -
    from py_total_distinct [OF Cons.prems(1)] q have ne: "fst p \<noteq> fst q" by auto
    from py_total_ordered [OF Cons.prems(1) _ _ ne] q have "\<not> py_eq (fst p) (fst q)" by simp
    moreover from Cons.prems(2) q have "py_lt (VTuple [fst p, snd p]) (VTuple [fst q, snd q]) = Some True"
      by auto
    ultimately show ?thesis by simp
  qed
  moreover from Cons.IH [OF t'] Cons.prems(2) have "sorted_wrt (\<lambda>a b. py_lt (fst a) (fst b) = Some True) ps"
    by simp
  ultimately show ?case by simp
qed


lemma py_total_ints: "distinct ks \<Longrightarrow> py_total (map VInt ks)"
proof (rule py_totalI)
  assume "distinct ks"
  then show "distinct (map VInt ks)" by (simp add: distinct_map inj_on_def)
next
  fix a b assume "a \<in> set (map VInt ks)" "b \<in> set (map VInt ks)" "a \<noteq> b"
  then obtain i j where "a = VInt i" "b = VInt j" "i \<noteq> j" by auto
  then show "\<not> py_eq a b \<and> (py_lt a b = Some True \<and> py_lt b a = Some False \<or>
      py_lt a b = Some False \<and> py_lt b a = Some True)"
    by (auto simp: as_int_def)
next
  fix a b c assume "a \<in> set (map VInt ks)" "b \<in> set (map VInt ks)" "c \<in> set (map VInt ks)"
    and "py_lt a b = Some True" "py_lt b c = Some True"
  then show "py_lt a c = Some True" by (auto simp: as_int_def)
qed

lemma py_total_strs: "distinct ks \<Longrightarrow> py_total (map VStr ks)"
proof (rule py_totalI)
  assume "distinct ks"
  then show "distinct (map VStr ks)" by (simp add: distinct_map inj_on_def)
next
  fix a b assume "a \<in> set (map VStr ks)" "b \<in> set (map VStr ks)" "a \<noteq> b"
  then obtain s t where "a = VStr s" "b = VStr t" "s \<noteq> t" by auto
  then show "\<not> py_eq a b \<and> (py_lt a b = Some True \<and> py_lt b a = Some False \<or>
      py_lt a b = Some False \<and> py_lt b a = Some True)"
    by (auto simp: not_less less_le)
next
  fix a b c assume "a \<in> set (map VStr ks)" "b \<in> set (map VStr ks)" "c \<in> set (map VStr ks)"
    and "py_lt a b = Some True" "py_lt b c = Some True"
  then show "py_lt a c = Some True" by auto
qed

lemma HashSet_sorted:
  assumes t: "py_total xs" and m: "mset xs' = mset xs"
    and b: "build (HashSet T) (VSet xs) = Inr out"
  shows "build (HashSet T) (VSet xs') = Inr out \<and>
      (\<exists>ys encs. mset ys = mset xs \<and> sorted_wrt (\<lambda>a b. py_lt a b = Some True) ys \<and>
         list_all2 (\<lambda>y enc. build T y = Inr enc) ys encs \<and>
         out = int_to_le 4 (int (length xs)) @ concat encs)"
proof -
  from py_sorted_total [OF t] obtain ys where ys: "py_sorted xs = Inr ys" "mset ys = mset xs"
    "sorted_wrt (\<lambda>a b. py_lt a b = Some True) ys" by blast
  from b ys(1) have pa: "c_build (PrefixedArray T) (VList ys) = Inr out"
    by (simp add: HashSet_build)
  from PrefixedArray_build_list [OF pa] obtain encs
    where encs: "list_all2 (\<lambda>y enc. build T y = Inr enc) ys encs"
      "out = int_to_le 4 (int (length ys)) @ concat encs" by blast
  from ys(2) have "length ys = length xs" by (rule mset_eq_length)
  with encs ys have "\<exists>ys encs. mset ys = mset xs \<and> sorted_wrt (\<lambda>a b. py_lt a b = Some True) ys \<and>
         list_all2 (\<lambda>y enc. build T y = Inr enc) ys encs \<and>
         out = int_to_le 4 (int (length xs)) @ concat encs" by auto
  moreover have "build (HashSet T) (VSet xs') = Inr out"
    using b py_sorted_permutation [OF t m] by (simp add: HashSet_build)
  ultimately show ?thesis by simp
qed

lemma HashMap_sorted:
  assumes t: "py_total (map fst kvs)" and m: "mset kvs' = mset kvs"
    and b: "build (HashMap K V) (VDict kvs) = Inr out"
  shows "build (HashMap K V) (VDict kvs') = Inr out \<and>
      (\<exists>skvs encs. mset skvs = mset kvs \<and>
         sorted_wrt (\<lambda>a b. py_lt (fst a) (fst b) = Some True) skvs \<and>
         list_all2 (\<lambda>kv enc. build (TupleStruct [K, V]) (VTuple [fst kv, snd kv]) = Inr enc) skvs encs \<and>
         out = int_to_le 4 (int (length kvs)) @ concat encs)"
proof -
  let ?tup = "\<lambda>kv :: val \<times> val. VTuple [fst kv, snd kv]"
  have ti: "py_total (map ?tup kvs)" using t by (rule py_total_items)
  have mi: "mset (map ?tup kvs') = mset (map ?tup kvs)" using m by simp
  from py_sorted_total [OF ti] obtain ys where ys: "py_sorted (map ?tup kvs) = Inr ys"
    "mset ys = mset (map ?tup kvs)" "sorted_wrt (\<lambda>a b. py_lt a b = Some True) ys" by blast
  from items_of_mset [OF ys(2)] obtain skvs where skvs: "ys = map ?tup skvs" "mset skvs = mset kvs"
    by blast
  from skvs(2) have "mset (map fst skvs) = mset (map fst kvs)" by simp
  with t have ts: "py_total (map fst skvs)" by (rule py_total_mset)
  from sorted_items_keys [OF ts] ys(3) skvs(1)
  have srt: "sorted_wrt (\<lambda>a b. py_lt (fst a) (fst b) = Some True) skvs" by simp
  from b ys(1) have pa: "c_build (PrefixedArray (TupleStruct [K, V])) (VList ys) = Inr out"
    by (simp add: HashMap_build)
  from PrefixedArray_build_list [OF pa] obtain encs
    where encs: "list_all2 (\<lambda>y enc. build (TupleStruct [K, V]) y = Inr enc) ys encs"
      "out = int_to_le 4 (int (length ys)) @ concat encs" by blast
  from encs(1) skvs(1)
  have l: "list_all2 (\<lambda>kv enc. build (TupleStruct [K, V]) (VTuple [fst kv, snd kv]) = Inr enc) skvs encs"
    by (simp add: list_all2_map1)
  from skvs have "length ys = length kvs" by (metis length_map mset_eq_length)
  with encs(2) skvs(2) srt l
  have "\<exists>skvs encs. mset skvs = mset kvs \<and>
         sorted_wrt (\<lambda>a b. py_lt (fst a) (fst b) = Some True) skvs \<and>
         list_all2 (\<lambda>kv enc. build (TupleStruct [K, V]) (VTuple [fst kv, snd kv]) = Inr enc) skvs encs \<and>
         out = int_to_le 4 (int (length kvs)) @ concat encs" by auto
  moreover have "build (HashMap K V) (VDict kvs') = Inr out"
    using b py_sorted_permutation [OF ti mi] by (simp add: HashMap_build)
  ultimately show ?thesis by simp
qed

text \<open>
  Claim C2, as amended. \<^verbatim>\<open>HashSet._encode\<close> is \<^verbatim>\<open>sorted(obj)\<close> and \<^verbatim>\<open>HashMap._encode\<close> is
  \<^verbatim>\<open>sorted(obj.items())\<close>: the entries are ordered as Python orders the decoded elements
  and keys, not by their encoded bytes. For a set whose elements, and a map whose keys,
  Python orders totally: the output is the u32 little-endian count followed by the
  encodings of the entries in ascending order of the elements (of the keys), and it is
  the same for every insertion or iteration order of the same entries.
\<close>

theorem C2_entries_sorted_by_decoded_order:
  "(py_total xs \<and> mset xs' = mset xs \<and> build (HashSet T) (VSet xs) = Inr out \<longrightarrow>
      build (HashSet T) (VSet xs') = Inr out \<and>
      (\<exists>ys encs. mset ys = mset xs \<and> sorted_wrt (\<lambda>a b. py_lt a b = Some True) ys \<and>
         list_all2 (\<lambda>y enc. build T y = Inr enc) ys encs \<and>
         out = int_to_le 4 (int (length xs)) @ concat encs)) \<and>
   (py_total (map fst kvs) \<and> mset kvs' = mset kvs \<and> build (HashMap K V) (VDict kvs) = Inr out' \<longrightarrow>
      build (HashMap K V) (VDict kvs') = Inr out' \<and>
      (\<exists>skvs encs. mset skvs = mset kvs \<and>
         sorted_wrt (\<lambda>a b. py_lt (fst a) (fst b) = Some True) skvs \<and>
         list_all2 (\<lambda>kv enc. build (TupleStruct [K, V]) (VTuple [fst kv, snd kv]) = Inr enc) skvs encs \<and>
         out' = int_to_le 4 (int (length kvs)) @ concat encs))"
  using HashSet_sorted [of xs xs' T out] HashMap_sorted [of kvs kvs' K V out'] by blast

text \<open>
  The set \<open>{256, 1}\<close> of u16 and the map \<open>{"b": 1, "a": 2}\<close> of the specification, each
  in both orders: 1 comes before 256, and \<open>"a"\<close> before \<open>"b"\<close>.
\<close>

theorem C2_entries_sorted_by_decoded_order_witness:
  "py_total [VInt 256, VInt 1] \<and>
   build (HashSet U16) (VSet [VInt 256, VInt 1]) = Inr [2, 0, 0, 0, 1, 0, 0, 1] \<and>
   build (HashSet U16) (VSet [VInt 1, VInt 256]) = Inr [2, 0, 0, 0, 1, 0, 0, 1] \<and>
   py_total (map fst [(VStr ''b'', VInt 1), (VStr ''a'', VInt 2)]) \<and>
   build (HashMap String U8) (VDict [(VStr ''b'', VInt 1), (VStr ''a'', VInt 2)]) =
     Inr [2, 0, 0, 0, 1, 0, 0, 0, 0x61, 2, 1, 0, 0, 0, 0x62, 1] \<and>
   build (HashMap String U8) (VDict [(VStr ''a'', VInt 2), (VStr ''b'', VInt 1)]) =
     Inr [2, 0, 0, 0, 1, 0, 0, 0, 0x61, 2, 1, 0, 0, 0, 0x62, 1]"
proof -
  let ?xs = "[VInt 256, VInt 1]" and ?xs' = "[VInt 1, VInt 256]"
  let ?kvs = "[(VStr ''b'', VInt 1), (VStr ''a'', VInt 2)]"
  let ?kvs' = "[(VStr ''a'', VInt 2), (VStr ''b'', VInt 1)]"
  have t1: "py_total ?xs"
    by (simp add: py_total_def as_int_def)
  have m1: "mset ?xs' = mset ?xs" by simp
  have b1: "build (HashSet U16) (VSet ?xs) = Inr [2, 0, 0, 0, 1, 0, 0, 1]"
    by (simp add: build_def HashSet_def FormatField_build_def as_int_def int_in_range_def int_to_le_def)
  have t2: "py_total (map fst ?kvs)"
    by (simp add: py_total_def less_char_def)
  have m2: "mset ?kvs' = mset ?kvs" by simp
  have b2: "build (HashMap String U8) (VDict ?kvs) = Inr [2, 0, 0, 0, 1, 0, 0, 0, 0x61, 2, 1, 0, 0, 0, 0x62, 1]"
    by (simp add: build_def HashMap_def FormatField_build_def as_int_def int_in_range_def int_to_le_def
        StringAdapter_encode_def byte_of_char_def less_char_def)
  note inst = C2_entries_sorted_by_decoded_order [of ?xs ?xs' U16 "[2, 0, 0, 0, 1, 0, 0, 1]"
      ?kvs ?kvs' String U8 "[2, 0, 0, 0, 1, 0, 0, 0, 0x61, 2, 1, 0, 0, 0, 0x62, 1]"]
  from inst [THEN conjunct1] t1 m1 b1
  have c1: "build (HashSet U16) (VSet ?xs') = Inr [2, 0, 0, 0, 1, 0, 0, 1]" by blast
  from inst [THEN conjunct2] t2 m2 b2
  have c2: "build (HashMap String U8) (VDict ?kvs') = Inr [2, 0, 0, 0, 1, 0, 0, 0, 0x61, 2, 1, 0, 0, 0, 0x62, 1]"
    by blast
  from t1 b1 c1 t2 b2 c2 show ?thesis by blast
qed

text \<open>
  Claim C2 as stated fails. In the map \<open>{256: 1, 1: 2}\<close> with u16 keys and u8 values the
  entry of key 1, encoded \<open>[1, 0, 2]\<close>, is placed before the entry of key 256, encoded
  \<open>[0, 1, 1]\<close>, although \<open>[0, 1, 1]\<close> is the smaller byte string.
\<close>

theorem C2_map_not_sorted_by_encoded_bytes_counterexample:
  "build (HashMap U16 U8) (VDict [(VInt 256, VInt 1), (VInt 1, VInt 2)]) =
     Inr [2, 0, 0, 0, 1, 0, 2, 0, 1, 1] \<and>
   build (TupleStruct [U16, U8]) (VTuple [VInt 1, VInt 2]) = Inr [1, 0, 2] \<and>
   build (TupleStruct [U16, U8]) (VTuple [VInt 256, VInt 1]) = Inr [0, 1, 1] \<and>
   ([0, 1, 1] :: byte list) < [1, 0, 2]"
  by (simp add: build_def HashMap_def FormatField_build_def as_int_def int_in_range_def
      int_to_le_def)

subsection \<open>Round trip\<close>

text \<open>
  Claim C1, at an input where the code breaks it. A union \<^verbatim>\<open>Inner = Enum("X", "Y")\<close> and
  a union \<^verbatim>\<open>Outer = Enum("A", "B" / CStruct("inner" / Inner))\<close> are built. The bytes
  \<open>[0x01, 0x00]\<close> decode, as \<^verbatim>\<open>Outer\<close>, to the value \<^verbatim>\<open>B(inner=X())\<close>; the inner value
  \<^verbatim>\<open>X()\<close> alone encodes to \<open>[0x00]\<close>. Encoding \<^verbatim>\<open>B(inner=X())\<close> raises AttributeError:
  \<^verbatim>\<open>attr.asdict\<close> has turned the inner value into a dict, which has no \<^verbatim>\<open>index\<close>.
\<close>

theorem C1_nested_enum_encode_fails:
  "Enum_init [VariantName ''X'', VariantName ''Y''] =
     Inr (Enum [(''X'', []), (''Y'', [])] [VariantName ''X'', VariantName ''Y'']) \<and>
   Enum_init [VariantName ''A'', VariantSubcon (Renamed ''B'' (CStruct [Renamed ''inner''
       (Enum [(''X'', []), (''Y'', [])] [VariantName ''X'', VariantName ''Y''])]))] =
     Inr (Enum [(''A'', []), (''B'', [''inner''])]
       [VariantName ''A'', VariantSubcon (Renamed ''B'' (CStruct [Renamed ''inner''
         (Enum [(''X'', []), (''Y'', [])] [VariantName ''X'', VariantName ''Y''])]))]) \<and>
   build (Enum [(''X'', []), (''Y'', [])] [VariantName ''X'', VariantName ''Y'']) (VVariant 0 ''X'' []) =
     Inr [0x00] \<and>
   parse (Enum [(''A'', []), (''B'', [''inner''])]
       [VariantName ''A'', VariantSubcon (Renamed ''B'' (CStruct [Renamed ''inner''
         (Enum [(''X'', []), (''Y'', [])] [VariantName ''X'', VariantName ''Y''])]))]) [0x01, 0x00] =
     Inr (VVariant 1 ''B'' [(''inner'', VVariant 0 ''X'' [])]) \<and>
   build (Enum [(''A'', []), (''B'', [''inner''])]
       [VariantName ''A'', VariantSubcon (Renamed ''B'' (CStruct [Renamed ''inner''
         (Enum [(''X'', []), (''Y'', [])] [VariantName ''X'', VariantName ''Y''])]))])
     (VVariant 1 ''B'' [(''inner'', VVariant 0 ''X'' [])]) = Inl AttributeError"
proof -
  let ?inner = "Enum [(''X'', []), (''Y'', [])] [VariantName ''X'', VariantName ''Y'']"
  let ?vs = "[VariantName ''A'', VariantSubcon (Renamed ''B'' (CStruct [Renamed ''inner'' ?inner]))]"
  let ?outer = "Enum [(''A'', []), (''B'', [''inner''])] ?vs"
  have a: "Enum_init [VariantName ''X'', VariantName ''Y''] = Inr ?inner"
    by (simp add: Enum_init_simps)
  have b: "Enum_init ?vs = Inr ?outer"
    by (simp add: Enum_init_simps)
  have c: "build ?inner (VVariant 0 ''X'' []) = Inr [0x00]"
    by (simp add: build_def tuple_getitem_def obj_index_def asdict_def FormatField_build_def as_int_def
        int_in_range_def int_to_le_def)
  have d: "parse ?outer [0x01, 0x00] = Inr (VVariant 1 ''B'' [(''inner'', VVariant 0 ''X'' [])])"
    by (simp add: parse_def stream_read_def getitem_def instantiate_def Let_def)
  have e: "build ?outer (VVariant 1 ''B'' [(''inner'', VVariant 0 ''X'' [])]) = Inl AttributeError"
    by (simp add: build_def tuple_getitem_def obj_index_def asdict_def FormatField_build_def as_int_def
        int_in_range_def int_to_le_def to_build_def TUPLE_DATA_def struct_subobj_def name_key_def)
  from a b c d e show ?thesis by simp
qed

end
